theory Spec2Isabelle
  imports Main "HOL-Library.Word" "HOL-Library.AList" "HOL-Library.Sublist"
begin

unbundle bit_operations_syntax

section \<open>CacheUtil.js: the resource caching layer\<close>

text \<open>
  A shallow embedding of \<^verbatim>\<open>CacheUtil\<close> (the module's closure state, \<^verbatim>\<open>cachedFetch\<close>,
  \<^verbatim>\<open>clearCache\<close>, \<^verbatim>\<open>clearOldCache\<close> and the helpers they call).

  JavaScript strings are modelled by \<^typ>\<open>string\<close>, whose characters are the code units
  0..255; on such a string \<^verbatim>\<open>btoa\<close> never throws. Times are integer milliseconds, as
  \<^verbatim>\<open>Date.now()\<close> returns them.
\<close>

subsection \<open>Values\<close>

text \<open>Values produced by \<^verbatim>\<open>JSON.parse\<close>; numbers are restricted to integers.\<close>

datatype json =
    JNull
  | JBool bool
  | JNum int
  | JStr string
  | JArr "json list"
  | JObj "(string \<times> json) list"

text \<open>JavaScript truthiness, as used by \<^verbatim>\<open>cacheEntry.data\<close> in a condition.\<close>

fun truthy :: "json \<Rightarrow> bool" where
  "truthy JNull = False"
| "truthy (JBool b) = b"
| "truthy (JNum n) = (n \<noteq> 0)"
| "truthy (JStr s) = (s \<noteq> [])"
| "truthy (JArr xs) = True"
| "truthy (JObj kvs) = True"

text \<open>
  A cache entry \<^verbatim>\<open>{ timestamp, data }\<close>. The timestamp is \<open>None\<close> when the property
  is missing from a stored document.
\<close>

record cacheEntry =
  timestamp :: "int option"
  data :: json

subsection \<open>Entity and TTL\<close>

definition CACHE_PREFIX :: string where
  "CACHE_PREFIX = ''TTMS_cache_''"

definition TTL_CONFIG :: "(string \<times> int) list" where
  "TTL_CONFIG =
    [(''sesisemester'', 24 * 60 * 60 * 1000),
     (''pelajar_subjek'', 60 * 60 * 1000),
     (''jadual_subjek'', 60 * 60 * 1000),
     (''jadual_ruang'', 60 * 60 * 1000),
     (''ruang'', 6 * 60 * 60 * 1000),
     (''subjek'', 60 * 60 * 1000),
     (''subjek_seksyen'', 60 * 60 * 1000),
     (''pensyarah'', 6 * 60 * 60 * 1000),
     (''pelajar'', 30 * 60 * 1000),
     (''subjek_pelajar'', 30 * 60 * 1000),
     (''default'', 30 * 60 * 1000)]"

text \<open>
  \<^verbatim>\<open>TTL_CONFIG\<close> is an object literal, so \<^verbatim>\<open>TTL_CONFIG[entity]\<close> also finds the
  properties every object inherits from \<^verbatim>\<open>Object.prototype\<close>. Their values are functions
  (or, for \<^verbatim>\<open>__proto__\<close>, an object): truthy, and not numbers.
\<close>

definition object_prototype_names :: "string list" where
  "object_prototype_names =
    [''constructor'', ''hasOwnProperty'', ''isPrototypeOf'', ''propertyIsEnumerable'',
     ''toLocaleString'', ''toString'', ''valueOf'', ''__proto__'',
     ''__defineGetter__'', ''__defineSetter__'', ''__lookupGetter__'', ''__lookupSetter__'']"

text \<open>What the variable \<^verbatim>\<open>ttl\<close> can hold: a number of milliseconds, or an inherited member.\<close>

datatype ttl_value = Millis int | Inherited

text \<open>
  \<^verbatim>\<open>url.match(/entity=([^&]+)/)\<close>: the leftmost position where \<^verbatim>\<open>entity=\<close> is followed
  by at least one character other than \<^verbatim>\<open>&\<close>; group 1 is the longest such run.
\<close>

fun match_entity :: "string \<Rightarrow> string option" where
  "match_entity [] = None"
| "match_entity (c # cs) =
    (if prefix ''entity='' (c # cs) \<and> takeWhile (\<lambda>x. x \<noteq> CHR ''&'') (drop 7 (c # cs)) \<noteq> []
     then Some (takeWhile (\<lambda>x. x \<noteq> CHR ''&'') (drop 7 (c # cs)))
     else match_entity cs)"

definition getEntityFromUrl :: "string \<Rightarrow> string" where
  "getEntityFromUrl url = (case match_entity url of Some m \<Rightarrow> m | None \<Rightarrow> ''default'')"

text \<open>\<^verbatim>\<open>TTL_CONFIG[entity] || TTL_CONFIG['default']\<close>. Every number in the table is non-zero.\<close>

definition getTTL :: "string \<Rightarrow> ttl_value" where
  "getTTL entity =
    (case map_of TTL_CONFIG entity of
       Some n \<Rightarrow> if n \<noteq> 0 then Millis n else Millis (30 * 60 * 1000)
     | None \<Rightarrow> if entity \<in> set object_prototype_names then Inherited
               else Millis (30 * 60 * 1000))"

subsection \<open>Cache key\<close>

text \<open>
  The loop of \<^verbatim>\<open>getCacheKey\<close>: \<^verbatim>\<open>hash = ((hash << 5) - hash) + char; hash |= 0\<close>.
  The value stays a 32-bit integer, so the arithmetic is that of \<^typ>\<open>32 word\<close>.
\<close>

fun hash_loop :: "32 word \<Rightarrow> string \<Rightarrow> 32 word" where
  "hash_loop hash [] = hash"
| "hash_loop hash (c # cs) = hash_loop ((push_bit 5 hash - hash) + of_nat (of_char c)) cs"

text \<open>The decimal digits of a non-negative integer.\<close>

function decimal :: "int \<Rightarrow> string" where
  "decimal n = (if n < 10 then [char_of (48 + n)] else decimal (n div 10) @ [char_of (48 + n mod 10)])"
  by pat_completeness auto
termination
  by (relation "measure nat") auto

text \<open>Number-to-string conversion of a 32-bit signed integer.\<close>

definition int_to_string :: "int \<Rightarrow> string" where
  "int_to_string i = (if i < 0 then CHR ''-'' # decimal (- i) else decimal i)"

definition b64_alphabet :: string where
  "b64_alphabet = ''ABCDEFGHIJKLMNOPQRSTUVWXYZabcdefghijklmnopqrstuvwxyz0123456789+/''"

definition b64_digit :: "nat \<Rightarrow> char" where
  "b64_digit n = b64_alphabet ! (n mod 64)"

fun b64_groups :: "nat list \<Rightarrow> string" where
  "b64_groups (a # b # c # rest) =
     [b64_digit (a div 4), b64_digit ((a mod 4) * 16 + b div 16),
      b64_digit ((b mod 16) * 4 + c div 64), b64_digit (c mod 64)] @ b64_groups rest"
| "b64_groups [a, b] =
     [b64_digit (a div 4), b64_digit ((a mod 4) * 16 + b div 16),
      b64_digit ((b mod 16) * 4), CHR ''='']"
| "b64_groups [a] = [b64_digit (a div 4), b64_digit ((a mod 4) * 16), CHR ''='', CHR ''='']"
| "b64_groups [] = []"

definition btoa :: "string \<Rightarrow> string" where
  "btoa s = b64_groups (map of_char s)"

definition is_alnum :: "char \<Rightarrow> bool" where
  "is_alnum c =
     (let n = (of_char c :: nat)
      in (97 \<le> n \<and> n \<le> 122) \<or> (65 \<le> n \<and> n \<le> 90) \<or> (48 \<le> n \<and> n \<le> 57))"

definition getCacheKey :: "string \<Rightarrow> string" where
  "getCacheKey url =
     CACHE_PREFIX @ int_to_string (sint (hash_loop 0 url)) @ ''_''
       @ take 40 (filter is_alnum (btoa (take 100 url)))"

subsection \<open>The durable store\<close>

text \<open>
  \<^verbatim>\<open>localStorage\<close> holds strings. A stored string is represented by what \<^verbatim>\<open>JSON.parse\<close>
  makes of it: \<open>Unparseable\<close> when it throws (the empty string included, which the
  read paths skip as falsy and \<^verbatim>\<open>clearOldCache\<close> removes, as they do for a corrupt value),
  otherwise the entry object. The store is a list of pairs in key order, one pair per key.
\<close>

datatype stored = Unparseable | Doc cacheEntry

type_synonym storage = "(string \<times> stored) list"

text \<open>The exception thrown by a failing \<^verbatim>\<open>setItem\<close>, with its \<^verbatim>\<open>name\<close> and \<^verbatim>\<open>code\<close>.\<close>

datatype dom_exception = DOMException (exn_name: string) (exn_code: int)

text \<open>
  The store is an external collaborator: whether a write is refused, and with which
  exception, is its own policy, a parameter of the model.
\<close>

type_synonym write_policy = "storage \<Rightarrow> string \<Rightarrow> stored \<Rightarrow> dom_exception option"

definition getItem :: "storage \<Rightarrow> string \<Rightarrow> stored option" where
  "getItem s key = map_of s key"

definition setItem :: "write_policy \<Rightarrow> string \<Rightarrow> stored \<Rightarrow> storage \<Rightarrow> dom_exception + storage" where
  "setItem q key v s = (case q s key v of Some ex \<Rightarrow> Inl ex | None \<Rightarrow> Inr (AList.update key v s))"

definition removeItem :: "string \<Rightarrow> storage \<Rightarrow> storage" where
  "removeItem key s = AList.delete key s"

subsection \<open>The module state and the network\<close>

record options =
  forceRefresh :: bool
  skipCache :: bool
  customTTL :: "int option"
  staleWhileRevalidate :: bool

definition default_options :: options where
  "default_options =
     \<lparr>forceRefresh = False, skipCache = False, customTTL = None, staleWhileRevalidate = False\<rparr>"

text \<open>
  A network operation is outstanding from \<^verbatim>\<open>fetch(url)\<close> until its body text has arrived
  or it has failed. Its kind says which code resumes then: the direct fetch of
  \<^verbatim>\<open>skipCache\<close>, the \<^verbatim>\<open>fetchPromise\<close> of the miss path (with the cache key), or the
  \<^verbatim>\<open>refreshPromise\<close> of stale-while-revalidate (with the cache key and the stale data).
\<close>

datatype op_kind = Direct | Fetch string | Refresh string json

record request =
  req_url :: string
  req_kind :: op_kind

text \<open>
  The closure variables of the module, and the outstanding network operations. An
  operation's number also identifies its promise, which is what \<^verbatim>\<open>inflight\<close> stores.
\<close>

record cache_state =
  memoryCache :: "string \<rightharpoonup> cacheEntry"
  inflight :: "string \<rightharpoonup> nat"
  hits :: nat
  misses :: nat
  storageQuotaExceeded :: bool
  localStorage :: storage
  network :: "(nat \<times> request) list"
  next_op :: nat

definition initial :: "storage \<Rightarrow> cache_state" where
  "initial s =
     \<lparr>memoryCache = Map.empty, inflight = Map.empty, hits = 0, misses = 0,
      storageQuotaExceeded = False, localStorage = s, network = [], next_op = 0\<rparr>"

text \<open>What the network delivers: a failure, or a body that \<^verbatim>\<open>JSON.parse\<close> accepts or not.\<close>

datatype body = Malformed | Json json

datatype net_result = NetFail | Response body

text \<open>
  Failures a caller can see: the rejection of \<^verbatim>\<open>fetch\<close>, the
  \<^verbatim>\<open>Error("Invalid JSON response from TTMS")\<close> of the miss path, and the syntax error
  of \<^verbatim>\<open>response.json()\<close> on the \<^verbatim>\<open>skipCache\<close> path.
\<close>

datatype js_error = NetworkFailure | InvalidJson | SyntaxError

text \<open>
  What a call has in hand when it returns or first suspends: a value, the promise of an
  operation already in flight, or its own wait for the operation it has just issued.
\<close>

datatype call_result = Returned json | Attached nat | Awaiting nat

subsection \<open>cachedFetch, up to its first suspension\<close>

definition isCacheValid :: "int \<Rightarrow> cacheEntry \<Rightarrow> ttl_value \<Rightarrow> bool" where
  "isCacheValid now e ttl =
     (case timestamp e of
        None \<Rightarrow> False
      | Some t \<Rightarrow>
          if t = 0 then False
          else (case ttl of Millis l \<Rightarrow> now - t < l | Inherited \<Rightarrow> False))"

text \<open>\<^verbatim>\<open>customTTL || getTTL(entity)\<close>: \<^verbatim>\<open>null\<close> and \<^verbatim>\<open>0\<close> are falsy.\<close>

definition effective_ttl :: "options \<Rightarrow> string \<Rightarrow> ttl_value" where
  "effective_ttl opts url =
     (case customTTL opts of
        None \<Rightarrow> getTTL (getEntityFromUrl url)
      | Some n \<Rightarrow> if n \<noteq> 0 then Millis n else getTTL (getEntityFromUrl url))"

text \<open>\<^verbatim>\<open>fetch(url)\<close>: a new outstanding operation.\<close>

definition issue :: "string \<Rightarrow> op_kind \<Rightarrow> cache_state \<Rightarrow> nat \<times> cache_state" where
  "issue url kind st =
     (next_op st,
      st\<lparr>network := network st @ [(next_op st, \<lparr>req_url = url, req_kind = kind\<rparr>)],
         next_op := Suc (next_op st)\<rparr>)"

text \<open>
  The block \<^verbatim>\<open>if (!forceRefresh) { ... }\<close>: \<open>Some\<close> when it returns from the call,
  \<open>None\<close> when control falls through to the network fetch.
\<close>

definition read_localStorage ::
  "int \<Rightarrow> string \<Rightarrow> string \<Rightarrow> ttl_value \<Rightarrow> bool \<Rightarrow> cache_state \<Rightarrow> (call_result \<times> cache_state) option" where
  "read_localStorage now url cacheKey ttl swr st =
     (case getItem (localStorage st) cacheKey of
        None \<Rightarrow> None
      | Some Unparseable \<Rightarrow> None
      | Some (Doc ce) \<Rightarrow>
          if isCacheValid now ce ttl then
            Some (Returned (data ce),
                  st\<lparr>hits := Suc (hits st), memoryCache := (memoryCache st)(cacheKey \<mapsto> ce)\<rparr>)
          else if swr \<and> truthy (data ce) then
            (let st1 = st\<lparr>hits := Suc (hits st)\<rparr>
             in if inflight st1 cacheKey = None then
                  (let (n, st2) = issue url (Refresh cacheKey (data ce)) st1
                   in Some (Returned (data ce), st2\<lparr>inflight := (inflight st2)(cacheKey \<mapsto> n)\<rparr>))
                else Some (Returned (data ce), st1))
          else None)"

definition read_cache ::
  "int \<Rightarrow> string \<Rightarrow> string \<Rightarrow> ttl_value \<Rightarrow> bool \<Rightarrow> cache_state \<Rightarrow> (call_result \<times> cache_state) option" where
  "read_cache now url cacheKey ttl swr st =
     (case memoryCache st cacheKey of
        None \<Rightarrow> read_localStorage now url cacheKey ttl swr st
      | Some me \<Rightarrow>
          if isCacheValid now me ttl then Some (Returned (data me), st\<lparr>hits := Suc (hits st)\<rparr>)
          else read_localStorage now url cacheKey ttl swr st)"

text \<open>
  From \<^verbatim>\<open>stats.misses++\<close> to \<^verbatim>\<open>await fetchPromise\<close>: the operation is issued, and
  registered in \<^verbatim>\<open>inflight\<close> unless \<^verbatim>\<open>forceRefresh\<close> is set.
\<close>

definition fetch_from_network :: "string \<Rightarrow> string \<Rightarrow> bool \<Rightarrow> cache_state \<Rightarrow> call_result \<times> cache_state" where
  "fetch_from_network url cacheKey force st =
     (let (n, st1) = issue url (Fetch cacheKey) (st\<lparr>misses := Suc (misses st)\<rparr>)
      in (Awaiting n, if force then st1 else st1\<lparr>inflight := (inflight st1)(cacheKey \<mapsto> n)\<rparr>))"

definition cachedFetch :: "int \<Rightarrow> string \<Rightarrow> options \<Rightarrow> cache_state \<Rightarrow> call_result \<times> cache_state" where
  "cachedFetch now url opts st =
     (if skipCache opts then (let (n, st1) = issue url Direct st in (Awaiting n, st1))
      else
        (let cacheKey = getCacheKey url; ttl = effective_ttl opts url
         in case (if forceRefresh opts then None else inflight st cacheKey) of
              Some p \<Rightarrow> (Attached p, st)
            | None \<Rightarrow>
                (case (if forceRefresh opts then None
                       else read_cache now url cacheKey ttl (staleWhileRevalidate opts) st) of
                   Some served \<Rightarrow> served
                 | None \<Rightarrow> fetch_from_network url cacheKey (forceRefresh opts) st)))"

subsection \<open>clearCache and clearOldCache\<close>

text \<open>
  \<^verbatim>\<open>now - entry.timestamp > 24 * 60 * 60 * 1000\<close>, or the \<^verbatim>\<open>catch\<close> branch when
  \<^verbatim>\<open>JSON.parse\<close> throws. With no timestamp the comparison is on \<^verbatim>\<open>NaN\<close> and is false.
\<close>

definition expired :: "int \<Rightarrow> stored option \<Rightarrow> bool" where
  "expired now v =
     (case v of
        None \<Rightarrow> True
      | Some Unparseable \<Rightarrow> True
      | Some (Doc e) \<Rightarrow>
          (case timestamp e of None \<Rightarrow> False | Some t \<Rightarrow> now - t > 24 * 60 * 60 * 1000))"

definition clearOldCache :: "int \<Rightarrow> cache_state \<Rightarrow> nat \<times> cache_state" where
  "clearOldCache now st =
     (let s = localStorage st;
          keysToRemove =
            filter (\<lambda>key. prefix CACHE_PREFIX key \<and> expired now (getItem s key)) (map fst s)
      in (length keysToRemove, st\<lparr>localStorage := fold removeItem keysToRemove s\<rparr>))"

text \<open>
  The loop body of \<^verbatim>\<open>clearCache\<close> for a key with the prefix: without an
  \<^verbatim>\<open>entityPrefix\<close> (\<^verbatim>\<open>null\<close> or the empty string) the key is taken; with one, the
  entry is parsed, and the key is taken whether or not that throws.
\<close>

definition clear_takes :: "string option \<Rightarrow> stored option \<Rightarrow> bool" where
  "clear_takes entityPrefix v =
     (case entityPrefix of
        None \<Rightarrow> True
      | Some p \<Rightarrow>
          if p = [] then True
          else (case v of Some (Doc e) \<Rightarrow> True | Some Unparseable \<Rightarrow> True | None \<Rightarrow> True))"

definition clearCache :: "string option \<Rightarrow> cache_state \<Rightarrow> nat \<times> cache_state" where
  "clearCache entityPrefix st =
     (let s = localStorage st;
          keysToRemove =
            filter (\<lambda>key. prefix CACHE_PREFIX key \<and> clear_takes entityPrefix (getItem s key))
              (map fst s)
      in (length keysToRemove, st\<lparr>localStorage := fold removeItem keysToRemove s\<rparr>))"

subsection \<open>cachedFetch, resumed when the network operation completes\<close>

text \<open>
  Lines 193--223: the new entry goes to the memory cache, then to \<^verbatim>\<open>localStorage\<close>
  behind the circuit breaker, with one cleanup and one retry on a quota error.
\<close>

definition store_entry :: "write_policy \<Rightarrow> int \<Rightarrow> string \<Rightarrow> json \<Rightarrow> cache_state \<Rightarrow> cache_state" where
  "store_entry q now cacheKey d st =
     (let e = \<lparr>timestamp = Some now, data = d\<rparr>;
          st1 = st\<lparr>memoryCache := (memoryCache st)(cacheKey \<mapsto> e)\<rparr>
      in if storageQuotaExceeded st1 then st1
         else
           (case setItem q cacheKey (Doc e) (localStorage st1) of
              Inr s \<Rightarrow> st1\<lparr>localStorage := s\<rparr>
            | Inl ex \<Rightarrow>
                if exn_name ex = ''QuotaExceededError'' \<or> exn_code ex = 22 then
                  (let st2 = snd (clearOldCache now st1)
                   in case setItem q cacheKey (Doc e) (localStorage st2) of
                        Inr s \<Rightarrow> st2\<lparr>localStorage := s\<rparr>
                      | Inl ex2 \<Rightarrow> st2\<lparr>storageQuotaExceeded := True\<rparr>)
                else st1))"

text \<open>
  Lines 154--156 of the background refresh: the same two writes, the durable one inside
  \<^verbatim>\<open>try { ... } catch (e) { /* ignore */ }\<close>.
\<close>

definition store_refreshed :: "write_policy \<Rightarrow> int \<Rightarrow> string \<Rightarrow> json \<Rightarrow> cache_state \<Rightarrow> cache_state" where
  "store_refreshed q now cacheKey d st =
     (let newEntry = \<lparr>timestamp = Some now, data = d\<rparr>;
          st1 = st\<lparr>memoryCache := (memoryCache st)(cacheKey \<mapsto> newEntry)\<rparr>
      in case setItem q cacheKey (Doc newEntry) (localStorage st1) of
           Inr s \<Rightarrow> st1\<lparr>localStorage := s\<rparr>
         | Inl ex \<Rightarrow> st1)"

text \<open>The \<^verbatim>\<open>catch (error)\<close> block of lines 235--250.\<close>

definition stale_fallback :: "js_error \<Rightarrow> string \<Rightarrow> cache_state \<Rightarrow> js_error + json" where
  "stale_fallback err cacheKey st =
     (case getItem (localStorage st) cacheKey of
        None \<Rightarrow> Inl err
      | Some Unparseable \<Rightarrow> Inl err
      | Some (Doc ce) \<Rightarrow> Inr (data ce))"

text \<open>\<^verbatim>\<open>finally { inflight.delete(cacheKey) }\<close>, of both the miss path and the refresh.\<close>

definition finally_delete :: "string \<Rightarrow> cache_state \<Rightarrow> cache_state" where
  "finally_delete cacheKey st = st\<lparr>inflight := (inflight st)(cacheKey := None)\<rparr>"

text \<open>
  The outcome of a completed operation: the state after, what the operation's own
  promise (the one \<^verbatim>\<open>inflight\<close> may hold) settles with, and what the call that issued
  the operation settles with. The call that started a background refresh had returned
  before, so there is none to settle.
\<close>

record settlement =
  after :: cache_state
  promise :: "js_error + json"
  caller :: "(js_error + json) option"

definition direct_result :: "net_result \<Rightarrow> js_error + json" where
  "direct_result r =
     (case r of
        NetFail \<Rightarrow> Inl NetworkFailure
      | Response Malformed \<Rightarrow> Inl SyntaxError
      | Response (Json d) \<Rightarrow> Inr d)"

definition resume_fetch :: "write_policy \<Rightarrow> int \<Rightarrow> string \<Rightarrow> net_result \<Rightarrow> cache_state \<Rightarrow> settlement" where
  "resume_fetch q now cacheKey r st =
     (case r of
        NetFail \<Rightarrow>
          \<lparr>after = finally_delete cacheKey st, promise = Inl NetworkFailure,
           caller = Some (stale_fallback NetworkFailure cacheKey st)\<rparr>
      | Response Malformed \<Rightarrow>
          \<lparr>after = finally_delete cacheKey st, promise = Inl InvalidJson,
           caller = Some (stale_fallback InvalidJson cacheKey st)\<rparr>
      | Response (Json d) \<Rightarrow>
          \<lparr>after = finally_delete cacheKey (store_entry q now cacheKey d st), promise = Inr d,
           caller = Some (Inr d)\<rparr>)"

definition resume_refresh ::
  "write_policy \<Rightarrow> int \<Rightarrow> string \<Rightarrow> json \<Rightarrow> net_result \<Rightarrow> cache_state \<Rightarrow> settlement" where
  "resume_refresh q now cacheKey stale r st =
     (case r of
        NetFail \<Rightarrow> \<lparr>after = finally_delete cacheKey st, promise = Inr stale, caller = None\<rparr>
      | Response Malformed \<Rightarrow>
          \<lparr>after = finally_delete cacheKey st, promise = Inr stale, caller = None\<rparr>
      | Response (Json d) \<Rightarrow>
          \<lparr>after = finally_delete cacheKey (store_refreshed q now cacheKey d st),
           promise = Inr d, caller = None\<rparr>)"

definition resume :: "write_policy \<Rightarrow> int \<Rightarrow> op_kind \<Rightarrow> net_result \<Rightarrow> cache_state \<Rightarrow> settlement" where
  "resume q now kind r st =
     (case kind of
        Direct \<Rightarrow> \<lparr>after = st, promise = direct_result r, caller = Some (direct_result r)\<rparr>
      | Fetch cacheKey \<Rightarrow> resume_fetch q now cacheKey r st
      | Refresh cacheKey stale \<Rightarrow> resume_refresh q now cacheKey stale r st)"

text \<open>
  Operation \<open>n\<close> completes with \<open>r\<close> at time \<open>now\<close>: it leaves the network and its code
  resumes. \<open>None\<close> when no such operation is outstanding.
\<close>

definition settle :: "write_policy \<Rightarrow> int \<Rightarrow> nat \<Rightarrow> net_result \<Rightarrow> cache_state \<Rightarrow> settlement option" where
  "settle q now n r st =
     (case map_of (network st) n of
        None \<Rightarrow> None
      | Some rq \<Rightarrow>
          Some (resume q now (req_kind rq) r (st\<lparr>network := AList.delete n (network st)\<rparr>)))"

text \<open>
  What a call holding \<open>c\<close> has received once operation \<open>n\<close> has settled with \<open>s\<close>;
  \<open>None\<close> while it is still waiting for another operation.
\<close>

fun delivered :: "nat \<Rightarrow> settlement \<Rightarrow> call_result \<Rightarrow> (js_error + json) option" where
  "delivered n s (Returned d) = Some (Inr d)"
| "delivered n s (Attached p) = (if p = n then Some (promise s) else None)"
| "delivered n s (Awaiting p) = (if p = n then caller s else None)"

text \<open>Calls made one after the other, before any network operation completes.\<close>

fun calls :: "(int \<times> string \<times> options) list \<Rightarrow> cache_state \<Rightarrow> call_result list \<times> cache_state" where
  "calls [] st = ([], st)"
| "calls ((now, url, opts) # cs) st =
     (let (r, st1) = cachedFetch now url opts st;
          (rs, st2) = calls cs st1
      in (r # rs, st2))"

text \<open>The outstanding operations that were issued for a cache key.\<close>

fun op_key :: "op_kind \<Rightarrow> string option" where
  "op_key Direct = None"
| "op_key (Fetch cacheKey) = Some cacheKey"
| "op_key (Refresh cacheKey stale) = Some cacheKey"

definition outstanding :: "string \<Rightarrow> cache_state \<Rightarrow> nat list" where
  "outstanding cacheKey st =
     map fst (filter (\<lambda>(n, rq). op_key (req_kind rq) = Some cacheKey) (network st))"

subsection \<open>The life of the module\<close>

text \<open>
  What happens to the module during the life of the page: calls of its functions, and
  completions of network operations, in any order.
\<close>

datatype event =
    Call int string options
  | Settle write_policy int nat net_result
  | ClearCache "string option"
  | ClearOldCache int

fun step :: "event \<Rightarrow> cache_state \<Rightarrow> cache_state" where
  "step (Call now url opts) st = snd (cachedFetch now url opts st)"
| "step (Settle q now n r) st = (case settle q now n r st of None \<Rightarrow> st | Some s \<Rightarrow> after s)"
| "step (ClearCache entityPrefix) st = snd (clearCache entityPrefix st)"
| "step (ClearOldCache now) st = snd (clearOldCache now st)"

definition run :: "event list \<Rightarrow> cache_state \<Rightarrow> cache_state" where
  "run evs st = fold step evs st"

text \<open>
  The events that go through the in-flight registry or leave it alone: every event but a
  call with \<^verbatim>\<open>forceRefresh\<close> that is not also a \<^verbatim>\<open>skipCache\<close> call.
\<close>

fun deduplicated :: "event \<Rightarrow> bool" where
  "deduplicated (Call now url opts) = (if skipCache opts then True else \<not> forceRefresh opts)"
| "deduplicated (Settle q now n r) = True"
| "deduplicated (ClearCache entityPrefix) = True"
| "deduplicated (ClearOldCache now) = True"

text \<open>
  The registry and the network agree: operation numbers are distinct and were issued
  before, and every outstanding operation with a cache key is the ticket of its key.
\<close>

definition registry_ok :: "cache_state \<Rightarrow> bool" where
  "registry_ok st \<longleftrightarrow>
     distinct (map fst (network st)) \<and>
     (\<forall>(n, rq) \<in> set (network st).
        n < next_op st \<and> (\<forall>k. op_key (req_kind rq) = Some k \<longrightarrow> inflight st k = Some n))"

text \<open>What every caller of a fetch that completes with \<open>r\<close> receives, on an empty cache.\<close>

definition fetch_outcome :: "net_result \<Rightarrow> js_error + json" where
  "fetch_outcome r =
     (case r of
        NetFail \<Rightarrow> Inl NetworkFailure
      | Response Malformed \<Rightarrow> Inl InvalidJson
      | Response (Json d) \<Rightarrow> Inr d)"

subsection \<open>Concrete inputs\<close>

text \<open>The room list URL of \<^verbatim>\<open>RoomAvailability.js\<close>, and two store policies.\<close>

definition room_url :: string where
  "room_url = ''http://web.fc.utm.my/ttms/web_man_webservice_json.cgi?entity=ruang&kod_fakulti=fsksm''"

definition accepting :: write_policy where
  "accepting s key v = None"

definition full :: write_policy where
  "full s key v = Some (DOMException ''QuotaExceededError'' 22)"

text \<open>A state whose two tiers hold an entry for the room list, written at time 1000.\<close>

definition rooms_entry :: cacheEntry where
  "rooms_entry = \<lparr>timestamp = Some 1000, data = JStr ''rooms''\<rparr>"

definition warm :: cache_state where
  "warm =
     (initial [(getCacheKey room_url, Doc rooms_entry)])
       \<lparr>memoryCache := [getCacheKey room_url \<mapsto> rooms_entry]\<rparr>"

text \<open>A fresh process over a store that holds the room list entry written at time 1000.\<close>

definition restarted :: cache_state where
  "restarted = initial [(getCacheKey room_url, Doc rooms_entry)]"

text \<open>
  A store with room for one entry, a store that refuses every write for another reason
  than capacity, and a store that holds one old entry of the cache under another key.
\<close>

definition one_slot :: write_policy where
  "one_slot s key v =
     (if 1 < length (AList.update key v s) then Some (DOMException ''QuotaExceededError'' 22)
      else None)"

definition broken :: write_policy where
  "broken s key v = Some (DOMException ''SecurityError'' 18)"

definition cluttered :: cache_state where
  "cluttered = initial [(''TTMS_cache_old'', Doc \<lparr>timestamp = Some 1000, data = JNull\<rparr>)]"

section \<open>Properties\<close>

subsection \<open>Entity extraction\<close>

lemma match_entity_absent: "\<not> sublist ''entity='' url \<Longrightarrow> match_entity url = None"
  by (induction url) (auto simp: sublist_Cons_right)

lemma takeWhile_value:
  assumes "CHR ''&'' \<notin> set v" "rest = [] \<or> hd rest = CHR ''&''"
  shows "takeWhile (\<lambda>x. x \<noteq> CHR ''&'') (v @ rest) = v"
proof -
  have all: "\<And>x. x \<in> set v \<Longrightarrow> x \<noteq> CHR ''&''" using assms(1) by auto
  have "takeWhile (\<lambda>x. x \<noteq> CHR ''&'') rest = []" using assms(2) by (cases rest) auto
  with all show ?thesis by (simp add: takeWhile_append2)
qed

lemma match_entity_here:
  assumes "v \<noteq> []" "CHR ''&'' \<notin> set v" "rest = [] \<or> hd rest = CHR ''&''"
  shows "match_entity (''entity='' @ v @ rest) = Some v"
  using assms takeWhile_value [of v rest] by simp

lemma prefix_within: "prefix e (xs @ ys) \<Longrightarrow> length e \<le> length xs \<Longrightarrow> prefix e xs"
  using prefix_length_prefix [of e "xs @ ys" xs] by simp

lemma no_prefix_before:
  assumes "\<not> sublist ''entity='' ((c # p) @ ''entity'')"
  shows "\<not> prefix ''entity='' (c # p @ ''entity='' @ w)"
proof
  assume a: "prefix ''entity='' (c # p @ ''entity='' @ w)"
  from a have "prefix ''entity='' (((c # p) @ ''entity'') @ (''='' @ w))"
    by (simp only: append_Cons append_Nil append_assoc)
  then have "prefix ''entity='' ((c # p) @ ''entity'')"
    by (rule prefix_within) simp
  then have "sublist ''entity='' ((c # p) @ ''entity'')" by (rule prefix_imp_sublist)
  with assms show False by simp
qed

lemma match_entity_first:
  assumes "v \<noteq> []" "CHR ''&'' \<notin> set v" "rest = [] \<or> hd rest = CHR ''&''"
  shows "\<not> sublist ''entity='' (pre @ ''entity'') \<Longrightarrow>
         match_entity (pre @ ''entity='' @ v @ rest) = Some v"
proof (induction pre)
  case Nil
  show ?case using match_entity_here [OF assms] by simp
next
  case (Cons c p)
  from Cons.prems have np: "\<not> prefix ''entity='' (c # p @ ''entity='' @ v @ rest)"
    by (rule no_prefix_before)
  from Cons.prems have "\<not> sublist ''entity='' (p @ ''entity'')"
    by (simp add: sublist_Cons_right)
  then have ih: "match_entity (p @ ''entity='' @ v @ rest) = Some v" by (rule Cons.IH)
  have "match_entity (c # p @ ''entity='' @ v @ rest) = match_entity (p @ ''entity='' @ v @ rest)"
    using np by (simp only: match_entity.simps simp_thms if_False)
  with ih show ?case by (simp only: append_Cons)
qed

text \<open>
  Claim C8, as the code has it. \<^verbatim>\<open>getEntityFromUrl\<close> returns \<open>default\<close> when the URL
  does not contain \<^verbatim>\<open>entity=\<close>. When the first \<^verbatim>\<open>entity=\<close> of the URL is followed by a
  non-empty value that runs to the next \<^verbatim>\<open>&\<close> or to the end of the URL, it returns
  that value unchanged, whether or not the value is a key of the TTL table.
\<close>

theorem getEntityFromUrl_first_match:
  "(\<not> sublist ''entity='' url \<longrightarrow> getEntityFromUrl url = ''default'') \<and>
   (v \<noteq> [] \<and> CHR ''&'' \<notin> set v \<and> (rest = [] \<or> hd rest = CHR ''&'') \<and>
      \<not> sublist ''entity='' (pre @ ''entity'')
    \<longrightarrow> getEntityFromUrl (pre @ ''entity='' @ v @ rest) = v)"
proof (intro conjI impI)
  assume "\<not> sublist ''entity='' url"
  then show "getEntityFromUrl url = ''default''"
    by (simp add: getEntityFromUrl_def match_entity_absent)
next
  assume "v \<noteq> [] \<and> CHR ''&'' \<notin> set v \<and> (rest = [] \<or> hd rest = CHR ''&'') \<and>
      \<not> sublist ''entity='' (pre @ ''entity'')"
  then have "match_entity (pre @ ''entity='' @ v @ rest) = Some v"
    using match_entity_first [of v rest pre] by blast
  then show "getEntityFromUrl (pre @ ''entity='' @ v @ rest) = v"
    unfolding getEntityFromUrl_def by simp
qed

theorem getEntityFromUrl_first_match_witness:
  "\<not> sublist ''entity='' ''api?kod=1'' \<and> getEntityFromUrl ''api?kod=1'' = ''default'' \<and>
   \<not> sublist ''entity='' (''api?'' @ ''entity'') \<and>
   getEntityFromUrl (''api?'' @ ''entity='' @ ''foo'' @ ''&sesi=1'') = ''foo''"
  using getEntityFromUrl_first_match [of "''api?kod=1''" "''foo''" "''&sesi=1''" "''api?''"]
  by (simp add: sublist_Cons_right)

text \<open>
  Claim C8 as stated fails: an entity value that is not in the TTL table is returned
  as it is, not replaced by \<open>default\<close>.
\<close>

theorem getEntityFromUrl_unrecognized:
  "getEntityFromUrl ''api?entity=foo'' = ''foo'' \<and> map_of TTL_CONFIG ''foo'' = None \<and>
   ''foo'' \<noteq> ''default''"
  by (simp add: getEntityFromUrl_def TTL_CONFIG_def)

subsection \<open>Effective TTL\<close>

lemma TTL_CONFIG_nonzero: "map_of TTL_CONFIG entity = Some t \<Longrightarrow> t \<noteq> 0"
  by (auto simp: TTL_CONFIG_def split: if_splits)

lemma room_entity: "getEntityFromUrl room_url = ''ruang''"
  by (simp add: room_url_def getEntityFromUrl_def)

lemma foo_entity: "getEntityFromUrl ''api?entity=foo'' = ''foo''"
  by (simp add: getEntityFromUrl_def)

text \<open>
  Claim C7, as the code has it. The TTL that \<^verbatim>\<open>cachedFetch\<close> uses is the caller's
  \<^verbatim>\<open>customTTL\<close> whenever a non-zero one is supplied. When none is supplied it is the
  entry of \<^verbatim>\<open>TTL_CONFIG\<close> for the URL's entity class, and the default of 30 minutes when
  the entity class is neither a key of the table nor the name of a member inherited from
  \<^verbatim>\<open>Object.prototype\<close>.
\<close>

theorem effective_ttl_override:
  "(customTTL opts = Some n \<and> n \<noteq> 0 \<longrightarrow> effective_ttl opts url = Millis n) \<and>
   (customTTL opts = None \<and> map_of TTL_CONFIG (getEntityFromUrl url) = Some t
      \<longrightarrow> effective_ttl opts url = Millis t) \<and>
   (customTTL opts = None \<and> map_of TTL_CONFIG (getEntityFromUrl url) = None \<and>
      getEntityFromUrl url \<notin> set object_prototype_names
      \<longrightarrow> effective_ttl opts url = Millis (30 * 60 * 1000))"
  using TTL_CONFIG_nonzero [of "getEntityFromUrl url" t]
  by (simp add: effective_ttl_def getTTL_def)

theorem effective_ttl_override_witness:
  "customTTL (default_options\<lparr>customTTL := Some 5000\<rparr>) = Some 5000 \<and> (5000::int) \<noteq> 0 \<and>
   effective_ttl (default_options\<lparr>customTTL := Some 5000\<rparr>) room_url = Millis 5000 \<and>
   customTTL default_options = None \<and>
   map_of TTL_CONFIG (getEntityFromUrl room_url) = Some 21600000 \<and>
   effective_ttl default_options room_url = Millis 21600000 \<and>
   map_of TTL_CONFIG (getEntityFromUrl ''api?entity=foo'') = None \<and>
   getEntityFromUrl ''api?entity=foo'' \<notin> set object_prototype_names \<and>
   effective_ttl default_options ''api?entity=foo'' = Millis 1800000"
proof -
  have c: "customTTL (default_options\<lparr>customTTL := Some 5000\<rparr>) = Some 5000"
    and d: "customTTL default_options = None"
    by (simp_all add: default_options_def)
  have r: "map_of TTL_CONFIG (getEntityFromUrl room_url) = Some 21600000"
    by (simp add: room_entity TTL_CONFIG_def)
  have f: "map_of TTL_CONFIG (getEntityFromUrl ''api?entity=foo'') = None"
    and g: "getEntityFromUrl ''api?entity=foo'' \<notin> set object_prototype_names"
    by (simp_all add: foo_entity TTL_CONFIG_def object_prototype_names_def)
  from c d r f g
    effective_ttl_override [of "default_options\<lparr>customTTL := Some 5000\<rparr>" 5000 room_url 0]
    effective_ttl_override [of default_options 0 room_url 21600000]
    effective_ttl_override [of default_options 0 "''api?entity=foo''" 0]
  show ?thesis by simp
qed

text \<open>
  Claim C7 as stated fails: a supplied \<^verbatim>\<open>customTTL\<close> of 0 is falsy for \<^verbatim>\<open>||\<close>, and
  the TTL of the table (6 hours for \<open>ruang\<close>) is used instead.
\<close>

theorem customTTL_zero_ignored:
  "customTTL (default_options\<lparr>customTTL := Some 0\<rparr>) = Some 0 \<and>
   effective_ttl (default_options\<lparr>customTTL := Some 0\<rparr>) room_url = Millis 21600000"
  by (simp add: effective_ttl_def default_options_def room_entity getTTL_def TTL_CONFIG_def)

subsection \<open>skipCache\<close>

lemma cachedFetch_skipCache:
  "skipCache opts \<Longrightarrow>
   cachedFetch now url opts st =
     (Awaiting (next_op st),
      st\<lparr>network := network st @ [(next_op st, \<lparr>req_url = url, req_kind = Direct\<rparr>)],
         next_op := Suc (next_op st)\<rparr>)"
  by (simp add: cachedFetch_def issue_def)

lemma settle_Direct:
  "map_of (network st) n = Some rq \<Longrightarrow> req_kind rq = Direct \<Longrightarrow>
   settle q t n r st =
     Some \<lparr>after = st\<lparr>network := AList.delete n (network st)\<rparr>,
           promise = direct_result r, caller = Some (direct_result r)\<rparr>"
  by (simp add: settle_def resume_def)

lemma room_url_valid_at_2000:
  "isCacheValid 2000 rooms_entry (effective_ttl (default_options\<lparr>skipCache := b\<rparr>) room_url)"
  by (simp add: default_options_def isCacheValid_def effective_ttl_def rooms_entry_def
      getEntityFromUrl_def room_url_def getTTL_def TTL_CONFIG_def)

text \<open>
  Claim C6. A call with \<^verbatim>\<open>skipCache\<close> only issues a network operation: the memory
  cache, \<^verbatim>\<open>localStorage\<close>, the in-flight registry, the statistics and the circuit
  breaker are as before, and what the call does is the same in every state. When the
  operation completes, the state is again unchanged apart from the operation leaving the
  network, and the call settles with the parsed body, or with the failure of the fetch
  or of the parse.
\<close>

theorem skipCache_bypasses_cache:
  "skipCache opts \<Longrightarrow>
   cachedFetch now url opts st =
     (Awaiting (next_op st),
      st\<lparr>network := network st @ [(next_op st, \<lparr>req_url = url, req_kind = Direct\<rparr>)],
         next_op := Suc (next_op st)\<rparr>) \<and>
   memoryCache (snd (cachedFetch now url opts st)) = memoryCache st \<and>
   localStorage (snd (cachedFetch now url opts st)) = localStorage st \<and>
   inflight (snd (cachedFetch now url opts st)) = inflight st \<and>
   hits (snd (cachedFetch now url opts st)) = hits st \<and>
   misses (snd (cachedFetch now url opts st)) = misses st \<and>
   storageQuotaExceeded (snd (cachedFetch now url opts st)) = storageQuotaExceeded st \<and>
   (map_of (network st') n = Some rq \<and> req_kind rq = Direct \<longrightarrow>
      settle q t n r st' =
        Some \<lparr>after = st'\<lparr>network := AList.delete n (network st')\<rparr>,
              promise = direct_result r, caller = Some (direct_result r)\<rparr>) \<and>
   direct_result (Response (Json d)) = Inr d \<and>
   direct_result (Response Malformed) = Inl SyntaxError \<and>
   direct_result NetFail = Inl NetworkFailure"
  by (simp add: cachedFetch_skipCache settle_Direct direct_result_def)

theorem skipCache_bypasses_cache_witness:
  "skipCache (default_options\<lparr>skipCache := True\<rparr>) \<and>
   memoryCache warm (getCacheKey room_url) = Some rooms_entry \<and>
   isCacheValid 2000 rooms_entry (effective_ttl (default_options\<lparr>skipCache := True\<rparr>) room_url) \<and>
   cachedFetch 2000 room_url (default_options\<lparr>skipCache := True\<rparr>) warm =
     (Awaiting 0,
      warm\<lparr>network := [(0, \<lparr>req_url = room_url, req_kind = Direct\<rparr>)], next_op := 1\<rparr>) \<and>
   settle accepting 3000 0 (Response (Json (JNum 7)))
       (warm\<lparr>network := [(0, \<lparr>req_url = room_url, req_kind = Direct\<rparr>)], next_op := 1\<rparr>) =
     Some \<lparr>after = warm\<lparr>network := [], next_op := 1\<rparr>,
           promise = Inr (JNum 7), caller = Some (Inr (JNum 7))\<rparr>"
proof -
  have w: "network warm = []" "next_op warm = 0"
    "memoryCache warm (getCacheKey room_url) = Some rooms_entry"
    by (simp_all add: warm_def initial_def)
  have s: "skipCache (default_options\<lparr>skipCache := True\<rparr>)"
    by (simp add: default_options_def)
  from w s room_url_valid_at_2000 [of True]
    skipCache_bypasses_cache
      [OF s, of 2000 room_url warm
        "warm\<lparr>network := [(0, \<lparr>req_url = room_url, req_kind = Direct\<rparr>)], next_op := 1\<rparr>"
        0 "\<lparr>req_url = room_url, req_kind = Direct\<rparr>" accepting 3000
        "Response (Json (JNum 7))" "JNum 7"]
  show ?thesis by simp
qed

subsection \<open>clearCache\<close>

lemma fold_removeItem: "fold removeItem ks s = filter (\<lambda>kv. fst kv \<notin> set ks) s"
proof (induction ks arbitrary: s)
  case Nil
  show ?case by simp
next
  case (Cons k ks)
  have "removeItem k s = filter (\<lambda>kv. fst kv \<noteq> k) s"
    by (auto simp: removeItem_def AList.delete_eq intro: filter_cong)
  with Cons show ?case by (auto intro: filter_cong)
qed

lemma clear_takes_always: "clear_takes entityPrefix v"
  by (simp add: clear_takes_def split: option.split stored.split)

lemma remove_selected:
  "filter (\<lambda>kv. fst kv \<notin> set (filter P (map fst s))) s = filter (\<lambda>kv. \<not> P (fst kv)) s"
  by (rule filter_cong) auto

lemma count_selected:
  "length (filter P (map fst s)) + length (filter (\<lambda>kv. \<not> P (fst kv)) s) = length s"
proof -
  have "length (filter P (map fst s)) = length (filter (\<lambda>kv. P (fst kv)) s)"
    by (simp add: filter_map comp_def)
  then show ?thesis using sum_length_filter_compl [of "\<lambda>kv. P (fst kv)" s] by simp
qed

lemma clearCache_eq:
  "clearCache entityPrefix st =
     (length (filter (prefix CACHE_PREFIX) (map fst (localStorage st))),
      st\<lparr>localStorage := filter (\<lambda>kv. \<not> prefix CACHE_PREFIX (fst kv)) (localStorage st)\<rparr>)"
proof -
  have sel: "(\<lambda>key. prefix CACHE_PREFIX key \<and> clear_takes entityPrefix (getItem (localStorage st) key)) =
             prefix CACHE_PREFIX"
    by (simp add: clear_takes_always)
  show ?thesis
    unfolding clearCache_def Let_def sel fold_removeItem remove_selected
    by (simp add: clear_takes_always)
qed

lemma memory_hit:
  assumes "\<not> skipCache opts" "\<not> forceRefresh opts"
    and "memoryCache st (getCacheKey url) = Some e"
    and "isCacheValid now e (effective_ttl opts url)"
  shows "cachedFetch now url opts st =
           (case inflight st (getCacheKey url) of
              None \<Rightarrow> (Returned (data e), st\<lparr>hits := Suc (hits st)\<rparr>)
            | Some p \<Rightarrow> (Attached p, st))"
  using assms by (simp add: cachedFetch_def read_cache_def split: option.split)

text \<open>
  Claim C10, as the code has it. \<^verbatim>\<open>clearCache\<close> changes \<^verbatim>\<open>localStorage\<close> only: it removes exactly the
  entries whose key has the cache prefix and returns how many they are. The memory cache
  is as before, so a following call without \<^verbatim>\<open>skipCache\<close> and \<^verbatim>\<open>forceRefresh\<close>, for a
  URL whose memory entry is within its TTL, issues no network operation: it returns the
  entry's data, or the promise already in flight for the key when there is one.
\<close>

theorem clearCache_durable_only:
  "clearCache entityPrefix st = (n, st') \<Longrightarrow>
   memoryCache st' = memoryCache st \<and> inflight st' = inflight st \<and>
   hits st' = hits st \<and> misses st' = misses st \<and>
   storageQuotaExceeded st' = storageQuotaExceeded st \<and> network st' = network st \<and>
   localStorage st' = filter (\<lambda>kv. \<not> prefix CACHE_PREFIX (fst kv)) (localStorage st) \<and>
   n = length (filter (prefix CACHE_PREFIX) (map fst (localStorage st))) \<and>
   n + length (localStorage st') = length (localStorage st) \<and>
   (\<not> skipCache opts \<and> \<not> forceRefresh opts \<and>
    memoryCache st (getCacheKey url) = Some e \<and> isCacheValid now e (effective_ttl opts url)
    \<longrightarrow> cachedFetch now url opts st' =
          (case inflight st (getCacheKey url) of
             None \<Rightarrow> (Returned (data e), st'\<lparr>hits := Suc (hits st')\<rparr>)
           | Some p \<Rightarrow> (Attached p, st')) \<and>
        network (snd (cachedFetch now url opts st')) = network st)"
proof -
  assume a: "clearCache entityPrefix st = (n, st')"
  then have n: "n = length (filter (prefix CACHE_PREFIX) (map fst (localStorage st)))"
    and st': "st' = st\<lparr>localStorage := filter (\<lambda>kv. \<not> prefix CACHE_PREFIX (fst kv)) (localStorage st)\<rparr>"
    by (simp_all add: clearCache_eq)
  have frame: "memoryCache st' = memoryCache st" "inflight st' = inflight st"
    "hits st' = hits st" "misses st' = misses st"
    "storageQuotaExceeded st' = storageQuotaExceeded st" "network st' = network st"
    "localStorage st' = filter (\<lambda>kv. \<not> prefix CACHE_PREFIX (fst kv)) (localStorage st)"
    by (simp_all add: st')
  have cnt: "n + length (localStorage st') = length (localStorage st)"
    unfolding n frame(7) by (rule count_selected)
  have served: "cachedFetch now url opts st' =
          (case inflight st (getCacheKey url) of
             None \<Rightarrow> (Returned (data e), st'\<lparr>hits := Suc (hits st')\<rparr>)
           | Some p \<Rightarrow> (Attached p, st')) \<and>
        network (snd (cachedFetch now url opts st')) = network st"
    if h: "\<not> skipCache opts \<and> \<not> forceRefresh opts \<and>
      memoryCache st (getCacheKey url) = Some e \<and> isCacheValid now e (effective_ttl opts url)"
  proof -
    from h have "cachedFetch now url opts st' =
           (case inflight st' (getCacheKey url) of
              None \<Rightarrow> (Returned (data e), st'\<lparr>hits := Suc (hits st')\<rparr>)
            | Some p \<Rightarrow> (Attached p, st'))"
      by (intro memory_hit) (simp_all add: frame)
    then show ?thesis by (simp add: frame split: option.split)
  qed
  from frame n cnt served show ?thesis by blast
qed

theorem clearCache_durable_only_witness:
  "clearCache None warm = (1, warm\<lparr>localStorage := []\<rparr>) \<and>
   \<not> skipCache default_options \<and> \<not> forceRefresh default_options \<and>
   memoryCache warm (getCacheKey room_url) = Some rooms_entry \<and>
   isCacheValid 2000 rooms_entry (effective_ttl default_options room_url) \<and>
   cachedFetch 2000 room_url default_options (warm\<lparr>localStorage := []\<rparr>) =
     (Returned (JStr ''rooms''), warm\<lparr>localStorage := [], hits := 1\<rparr>) \<and>
   network (snd (cachedFetch 2000 room_url default_options (warm\<lparr>localStorage := []\<rparr>))) = []"
proof -
  have key: "prefix CACHE_PREFIX (getCacheKey room_url)"
    by (simp add: getCacheKey_def)
  have c: "clearCache None warm = (1, warm\<lparr>localStorage := []\<rparr>)"
    using key by (simp add: clearCache_eq warm_def initial_def)
  have w: "memoryCache warm (getCacheKey room_url) = Some rooms_entry"
    "inflight warm (getCacheKey room_url) = None" "hits warm = 0" "network warm = []"
    by (simp_all add: warm_def initial_def)
  have v: "isCacheValid 2000 rooms_entry (effective_ttl default_options room_url)"
    using room_url_valid_at_2000 [of False] by (simp add: default_options_def)
  have d: "\<not> skipCache default_options" "\<not> forceRefresh default_options"
    by (simp_all add: default_options_def)
  from c w v d
    clearCache_durable_only [OF c, of default_options room_url rooms_entry 2000]
  show ?thesis by (simp add: rooms_entry_def)
qed

text \<open>
  Claim C10 as stated fails when a request is in flight for the key. A first call fetches
  and stores the room list; a second call with a \<^verbatim>\<open>customTTL\<close> of one millisecond finds
  the entry stale under that TTL and starts a fetch; \<^verbatim>\<open>clearCache\<close> runs. The memory
  entry is within the default TTL, yet a call with default options is not served from it:
  the in-flight check comes first and hands it the promise of the fetch, and when that
  fetch fails the call fails with it.
\<close>

theorem valid_memory_entry_not_served:
  "memoryCache
     (run [Call 1000 room_url default_options,
           Settle accepting 2000 0 (Response (Json (JNum 7))),
           Call 3000 room_url (default_options\<lparr>customTTL := Some 1\<rparr>),
           ClearCache None] (initial []))
     (getCacheKey room_url) = Some \<lparr>timestamp = Some 2000, data = JNum 7\<rparr> \<and>
   isCacheValid 3001 \<lparr>timestamp = Some 2000, data = JNum 7\<rparr>
     (effective_ttl default_options room_url) \<and>
   fst (cachedFetch 3001 room_url default_options
     (run [Call 1000 room_url default_options,
           Settle accepting 2000 0 (Response (Json (JNum 7))),
           Call 3000 room_url (default_options\<lparr>customTTL := Some 1\<rparr>),
           ClearCache None] (initial []))) = Attached 1 \<and>
   map_option (\<lambda>s. delivered 1 s (Attached 1))
     (settle accepting 4000 1 NetFail
        (snd (cachedFetch 3001 room_url default_options
          (run [Call 1000 room_url default_options,
                Settle accepting 2000 0 (Response (Json (JNum 7))),
                Call 3000 room_url (default_options\<lparr>customTTL := Some 1\<rparr>),
                ClearCache None] (initial []))))) =
     Some (Some (Inl NetworkFailure))"
proof -
  let ?k = "getCacheKey room_url"
  let ?e = "\<lparr>timestamp = Some 2000, data = JNum 7\<rparr>"
  let ?st1 = "(initial [])\<lparr>misses := 1,
      network := [(0, \<lparr>req_url = room_url, req_kind = Fetch ?k\<rparr>)],
      next_op := 1, inflight := [?k \<mapsto> 0]\<rparr>"
  let ?st2 = "(initial [])\<lparr>misses := 1, network := [], next_op := 1,
      memoryCache := [?k \<mapsto> ?e], localStorage := [(?k, Doc ?e)]\<rparr>"
  let ?st3 = "?st2\<lparr>misses := 2,
      network := [(1, \<lparr>req_url = room_url, req_kind = Fetch ?k\<rparr>)],
      next_op := 2, inflight := [?k \<mapsto> 1]\<rparr>"
  let ?st4 = "?st3\<lparr>localStorage := []\<rparr>"
  have key: "prefix CACHE_PREFIX ?k" by (simp add: getCacheKey_def)
  have ttl: "effective_ttl default_options room_url = Millis 21600000"
    by (simp add: effective_ttl_def default_options_def room_entity getTTL_def TTL_CONFIG_def)
  have 1: "step (Call 1000 room_url default_options) (initial []) = ?st1"
    by (simp add: cachedFetch_def read_cache_def read_localStorage_def getItem_def
        fetch_from_network_def issue_def default_options_def initial_def Let_def)
  have 2: "step (Settle accepting 2000 0 (Response (Json (JNum 7)))) ?st1 = ?st2"
    by (simp add: settle_def resume_def resume_fetch_def store_entry_def setItem_def
        accepting_def finally_delete_def initial_def Let_def)
  have 3: "step (Call 3000 room_url (default_options\<lparr>customTTL := Some 1\<rparr>)) ?st2 = ?st3"
    by (simp add: cachedFetch_def read_cache_def read_localStorage_def getItem_def
        effective_ttl_def isCacheValid_def fetch_from_network_def issue_def
        default_options_def initial_def Let_def)
  have 4: "step (ClearCache None) ?st3 = ?st4"
    using key by (simp add: clearCache_eq initial_def)
  have r: "run [Call 1000 room_url default_options,
           Settle accepting 2000 0 (Response (Json (JNum 7))),
           Call 3000 room_url (default_options\<lparr>customTTL := Some 1\<rparr>),
           ClearCache None] (initial []) = ?st4"
    by (simp only: run_def fold_simps 1 2 3 4 comp_apply id_apply)
  have c: "cachedFetch 3001 room_url default_options ?st4 = (Attached 1, ?st4)"
    by (simp add: cachedFetch_def default_options_def Let_def)
  have v: "isCacheValid 3001 ?e (effective_ttl default_options room_url)"
    by (simp add: ttl isCacheValid_def)
  have m: "memoryCache ?st4 ?k = Some ?e" by simp
  have s: "map_option (\<lambda>s. delivered 1 s (Attached 1)) (settle accepting 4000 1 NetFail ?st4) =
      Some (Some (Inl NetworkFailure))"
    by (simp add: settle_def resume_def resume_fetch_def)
  show ?thesis
    unfolding r c fst_conv snd_conv using m v s by blast
qed

subsection \<open>forceRefresh\<close>

lemma cachedFetch_forceRefresh:
  "forceRefresh opts \<Longrightarrow> \<not> skipCache opts \<Longrightarrow>
   cachedFetch now url opts st =
     (Awaiting (next_op st),
      st\<lparr>misses := Suc (misses st),
         network := network st @ [(next_op st, \<lparr>req_url = url, req_kind = Fetch (getCacheKey url)\<rparr>)],
         next_op := Suc (next_op st)\<rparr>)"
  by (simp add: cachedFetch_def fetch_from_network_def issue_def)

lemma settle_Fetch:
  "map_of (network st) n = Some rq \<Longrightarrow> req_kind rq = Fetch cacheKey \<Longrightarrow>
   settle q t n r st =
     Some (resume_fetch q t cacheKey r (st\<lparr>network := AList.delete n (network st)\<rparr>))"
  by (simp add: settle_def resume_def)

lemma clearOldCache_frame:
  "memoryCache (snd (clearOldCache t st)) = memoryCache st"
  "inflight (snd (clearOldCache t st)) = inflight st"
  "storageQuotaExceeded (snd (clearOldCache t st)) = storageQuotaExceeded st"
  "network (snd (clearOldCache t st)) = network st"
  "next_op (snd (clearOldCache t st)) = next_op st"
  "hits (snd (clearOldCache t st)) = hits st"
  "misses (snd (clearOldCache t st)) = misses st"
  by (simp_all add: clearOldCache_def Let_def)

lemma store_entry_memory:
  "memoryCache (store_entry q t cacheKey d st) =
     (memoryCache st)(cacheKey \<mapsto> \<lparr>timestamp = Some t, data = d\<rparr>)"
  by (simp add: store_entry_def Let_def clearOldCache_frame split: sum.split)

lemma store_entry_frame:
  "inflight (store_entry q t cacheKey d st) = inflight st"
  "network (store_entry q t cacheKey d st) = network st"
  "next_op (store_entry q t cacheKey d st) = next_op st"
  "hits (store_entry q t cacheKey d st) = hits st"
  "misses (store_entry q t cacheKey d st) = misses st"
  by (simp_all add: store_entry_def Let_def clearOldCache_frame split: sum.split)

lemma store_entry_breaker:
  "storageQuotaExceeded st \<Longrightarrow>
   localStorage (store_entry q t cacheKey d st) = localStorage st \<and>
   storageQuotaExceeded (store_entry q t cacheKey d st)"
  by (simp add: store_entry_def)

lemma store_entry_accepted:
  "\<not> storageQuotaExceeded st \<Longrightarrow>
   q (localStorage st) cacheKey (Doc \<lparr>timestamp = Some t, data = d\<rparr>) = None \<Longrightarrow>
   localStorage (store_entry q t cacheKey d st) =
     AList.update cacheKey (Doc \<lparr>timestamp = Some t, data = d\<rparr>) (localStorage st)"
  by (simp add: store_entry_def setItem_def Let_def)

lemma getItem_update: "getItem (AList.update k v s) k = Some v"
  by (simp add: getItem_def update_conv')

text \<open>
  Claim C3, as the code has it. A call with \<^verbatim>\<open>forceRefresh\<close> and without \<^verbatim>\<open>skipCache\<close>
  reads neither cache tier and does not look at the in-flight registry: in every state it
  counts a miss and issues a network operation of its own, which it does not register.
  When that operation delivers a body that parses, the call settles with the data and the
  new entry is in the memory cache; it is written to \<^verbatim>\<open>localStorage\<close> when the circuit
  breaker is not set and the store accepts the write, and \<^verbatim>\<open>localStorage\<close> is left as
  it was when the breaker is set.
\<close>

theorem forceRefresh_own_fetch:
  "forceRefresh opts \<and> \<not> skipCache opts \<Longrightarrow>
   cachedFetch now url opts st =
     (Awaiting (next_op st),
      st\<lparr>misses := Suc (misses st),
         network := network st @ [(next_op st, \<lparr>req_url = url, req_kind = Fetch (getCacheKey url)\<rparr>)],
         next_op := Suc (next_op st)\<rparr>) \<and>
   inflight (snd (cachedFetch now url opts st)) = inflight st \<and>
   (map_of (network st') n = Some \<lparr>req_url = url, req_kind = Fetch (getCacheKey url)\<rparr> \<and>
    settle q t n (Response (Json d)) st' = Some s
    \<longrightarrow> caller s = Some (Inr d) \<and>
        memoryCache (after s) (getCacheKey url) = Some \<lparr>timestamp = Some t, data = d\<rparr> \<and>
        (storageQuotaExceeded st' \<longrightarrow> localStorage (after s) = localStorage st') \<and>
        (\<not> storageQuotaExceeded st' \<and>
         q (localStorage st') (getCacheKey url) (Doc \<lparr>timestamp = Some t, data = d\<rparr>) = None
         \<longrightarrow> getItem (localStorage (after s)) (getCacheKey url) =
               Some (Doc \<lparr>timestamp = Some t, data = d\<rparr>)))"
proof -
  assume a: "forceRefresh opts \<and> \<not> skipCache opts"
  then have call: "cachedFetch now url opts st =
     (Awaiting (next_op st),
      st\<lparr>misses := Suc (misses st),
         network := network st @ [(next_op st, \<lparr>req_url = url, req_kind = Fetch (getCacheKey url)\<rparr>)],
         next_op := Suc (next_op st)\<rparr>)"
    by (simp add: cachedFetch_forceRefresh)
  have later: "caller s = Some (Inr d) \<and>
        memoryCache (after s) (getCacheKey url) = Some \<lparr>timestamp = Some t, data = d\<rparr> \<and>
        (storageQuotaExceeded st' \<longrightarrow> localStorage (after s) = localStorage st') \<and>
        (\<not> storageQuotaExceeded st' \<and>
         q (localStorage st') (getCacheKey url) (Doc \<lparr>timestamp = Some t, data = d\<rparr>) = None
         \<longrightarrow> getItem (localStorage (after s)) (getCacheKey url) =
               Some (Doc \<lparr>timestamp = Some t, data = d\<rparr>))"
    if h: "map_of (network st') n = Some \<lparr>req_url = url, req_kind = Fetch (getCacheKey url)\<rparr> \<and>
      settle q t n (Response (Json d)) st' = Some s"
  proof -
    let ?st = "st'\<lparr>network := AList.delete n (network st')\<rparr>"
    from h have s: "s = resume_fetch q t (getCacheKey url) (Response (Json d)) ?st"
      using settle_Fetch [of st' n _ "getCacheKey url" q t "Response (Json d)"] by simp
    have 1: "caller s = Some (Inr d)" by (simp add: s resume_fetch_def)
    have 2: "memoryCache (after s) (getCacheKey url) = Some \<lparr>timestamp = Some t, data = d\<rparr>"
      by (simp add: s resume_fetch_def finally_delete_def store_entry_memory)
    have 3: "localStorage (after s) = localStorage st'" if "storageQuotaExceeded st'"
      using that store_entry_breaker [of ?st q t "getCacheKey url" d]
      by (simp add: s resume_fetch_def finally_delete_def)
    have 4: "getItem (localStorage (after s)) (getCacheKey url) =
               Some (Doc \<lparr>timestamp = Some t, data = d\<rparr>)"
      if "\<not> storageQuotaExceeded st' \<and>
         q (localStorage st') (getCacheKey url) (Doc \<lparr>timestamp = Some t, data = d\<rparr>) = None"
      using that store_entry_accepted [of ?st q "getCacheKey url" t d]
      by (simp add: s resume_fetch_def finally_delete_def getItem_update)
    from 1 2 3 4 show ?thesis by blast
  qed
  from call later show ?thesis by simp
qed

theorem forceRefresh_own_fetch_witness:
  "forceRefresh (default_options\<lparr>forceRefresh := True\<rparr>) \<and>
   \<not> skipCache (default_options\<lparr>forceRefresh := True\<rparr>) \<and>
   cachedFetch 2000 room_url (default_options\<lparr>forceRefresh := True\<rparr>) warm =
     (Awaiting 0,
      warm\<lparr>misses := 1,
           network := [(0, \<lparr>req_url = room_url, req_kind = Fetch (getCacheKey room_url)\<rparr>)],
           next_op := 1\<rparr>) \<and>
   \<not> storageQuotaExceeded warm \<and>
   caller (the (settle accepting 3000 0 (Response (Json (JNum 7)))
     (warm\<lparr>misses := 1,
           network := [(0, \<lparr>req_url = room_url, req_kind = Fetch (getCacheKey room_url)\<rparr>)],
           next_op := 1\<rparr>))) = Some (Inr (JNum 7)) \<and>
   memoryCache (after (the (settle accepting 3000 0 (Response (Json (JNum 7)))
     (warm\<lparr>misses := 1,
           network := [(0, \<lparr>req_url = room_url, req_kind = Fetch (getCacheKey room_url)\<rparr>)],
           next_op := 1\<rparr>)))) (getCacheKey room_url) = Some \<lparr>timestamp = Some 3000, data = JNum 7\<rparr> \<and>
   getItem (localStorage (after (the (settle accepting 3000 0 (Response (Json (JNum 7)))
     (warm\<lparr>misses := 1,
           network := [(0, \<lparr>req_url = room_url, req_kind = Fetch (getCacheKey room_url)\<rparr>)],
           next_op := 1\<rparr>))))) (getCacheKey room_url) =
     Some (Doc \<lparr>timestamp = Some 3000, data = JNum 7\<rparr>)"
proof -
  let ?opts = "default_options\<lparr>forceRefresh := True\<rparr>"
  let ?st1 = "warm\<lparr>misses := 1,
           network := [(0, \<lparr>req_url = room_url, req_kind = Fetch (getCacheKey room_url)\<rparr>)],
           next_op := 1\<rparr>"
  have o: "forceRefresh ?opts \<and> \<not> skipCache ?opts" by (simp add: default_options_def)
  have w: "network warm = []" "next_op warm = 0" "misses warm = 0" "\<not> storageQuotaExceeded warm"
    by (simp_all add: warm_def initial_def)
  have n: "map_of (network ?st1) 0 =
      Some \<lparr>req_url = room_url, req_kind = Fetch (getCacheKey room_url)\<rparr>" by simp
  have s: "settle accepting 3000 0 (Response (Json (JNum 7))) ?st1 =
      Some (the (settle accepting 3000 0 (Response (Json (JNum 7))) ?st1))"
    by (simp add: settle_def)
  from o w n s
    forceRefresh_own_fetch [OF o, of 2000 room_url warm ?st1 0 accepting 3000 "JNum 7"
      "the (settle accepting 3000 0 (Response (Json (JNum 7))) ?st1)"]
  show ?thesis by (simp add: accepting_def)
qed

text \<open>
  Claim C3 as stated fails. A call with default options has registered operation 0 for the
  key; a call with \<^verbatim>\<open>forceRefresh\<close> for the same URL does not attach to it but issues
  operation 1, so two fetches for the key are outstanding, and the registry still holds
  operation 0 only.
\<close>

theorem forceRefresh_not_deduplicated:
  "fst (calls [(1000, room_url, default_options),
               (1001, room_url, default_options\<lparr>forceRefresh := True\<rparr>)] (initial [])) =
     [Awaiting 0, Awaiting 1] \<and>
   outstanding (getCacheKey room_url)
     (snd (calls [(1000, room_url, default_options),
                  (1001, room_url, default_options\<lparr>forceRefresh := True\<rparr>)] (initial []))) = [0, 1] \<and>
   inflight
     (snd (calls [(1000, room_url, default_options),
                  (1001, room_url, default_options\<lparr>forceRefresh := True\<rparr>)] (initial [])))
     (getCacheKey room_url) = Some 0"
  by (simp add: cachedFetch_def read_cache_def read_localStorage_def getItem_def
      fetch_from_network_def issue_def default_options_def initial_def outstanding_def Let_def)

subsection \<open>Fallback to a stored entry when the fetch fails\<close>

lemma room_ttl: "customTTL opts = None \<Longrightarrow> effective_ttl opts room_url = Millis 21600000"
  by (simp add: effective_ttl_def room_entity getTTL_def TTL_CONFIG_def)

lemma read_localStorage_Returned:
  "read_localStorage now url cacheKey ttl swr st = Some (c, st1) \<Longrightarrow> \<exists>d. c = Returned d"
  by (auto simp: read_localStorage_def Let_def issue_def
      split: option.splits stored.splits if_splits)

lemma read_cache_Returned:
  "read_cache now url cacheKey ttl swr st = Some (c, st1) \<Longrightarrow> \<exists>d. c = Returned d"
  by (auto simp: read_cache_def split: option.splits if_splits dest: read_localStorage_Returned)

lemma cachedFetch_Awaiting:
  assumes "\<not> skipCache opts" "cachedFetch now url opts st = (Awaiting n, st1)"
  shows "n = next_op st \<and>
         network st1 = network st @ [(n, \<lparr>req_url = url, req_kind = Fetch (getCacheKey url)\<rparr>)]"
proof (cases "forceRefresh opts")
  case True
  with assms show ?thesis by (auto simp: cachedFetch_forceRefresh)
next
  case False
  show ?thesis
  proof (cases "inflight st (getCacheKey url)")
    case (Some p)
    with assms False show ?thesis by (simp add: cachedFetch_def)
  next
    case None
    show ?thesis
    proof (cases "read_cache now url (getCacheKey url) (effective_ttl opts url)
        (staleWhileRevalidate opts) st")
      case (Some served)
      obtain c st2 where "served = (c, st2)" by (cases served)
      with Some read_cache_Returned obtain d where "served = (Returned d, st2)" by blast
      with assms False None Some show ?thesis by (simp add: cachedFetch_def)
    next
      case none: None
      with assms False None show ?thesis
        by (auto simp: cachedFetch_def fetch_from_network_def issue_def Let_def)
    qed
  qed
qed

lemma settle_Refresh:
  "map_of (network st) n = Some rq \<Longrightarrow> req_kind rq = Refresh cacheKey stale \<Longrightarrow>
   settle q t n r st =
     Some (resume_refresh q t cacheKey stale r (st\<lparr>network := AList.delete n (network st)\<rparr>))"
  by (simp add: settle_def resume_def)

text \<open>
  Claim C9, as the code has it. A call without \<^verbatim>\<open>skipCache\<close> that waits for the network
  has issued a fetch of its own for its cache key. When that fetch fails, this call
  settles with the data of the entry that \<^verbatim>\<open>localStorage\<close> holds for the key at that
  moment, whatever its age, and with the failure when there is none or it does not parse;
  neither tier changes. The failure itself is what the promise of the fetch settles with,
  and so what a caller attached to it through the in-flight registry receives. A caller
  attached to a failed background refresh receives the stale data.
\<close>

theorem network_failure_fallback:
  "(\<not> skipCache opts \<and> cachedFetch now url opts st = (Awaiting n, st1)
    \<longrightarrow> n = next_op st \<and>
        network st1 = network st @ [(n, \<lparr>req_url = url, req_kind = Fetch (getCacheKey url)\<rparr>)]) \<and>
   (map_of (network st2) m = Some rq \<and> req_kind rq = Fetch cacheKey \<and>
    settle q t m NetFail st2 = Some s
    \<longrightarrow> (getItem (localStorage st2) cacheKey = Some (Doc e)
           \<longrightarrow> delivered m s (Awaiting m) = Some (Inr (data e))) \<and>
        (getItem (localStorage st2) cacheKey = None \<or>
         getItem (localStorage st2) cacheKey = Some Unparseable
           \<longrightarrow> delivered m s (Awaiting m) = Some (Inl NetworkFailure)) \<and>
        delivered m s (Attached m) = Some (Inl NetworkFailure) \<and>
        memoryCache (after s) = memoryCache st2 \<and> localStorage (after s) = localStorage st2) \<and>
   (map_of (network st2) m = Some rq \<and> req_kind rq = Refresh cacheKey stale \<and>
    settle q t m NetFail st2 = Some s
    \<longrightarrow> delivered m s (Attached m) = Some (Inr stale) \<and>
        memoryCache (after s) = memoryCache st2 \<and> localStorage (after s) = localStorage st2)"
proof -
  have issued: "n = next_op st \<and>
      network st1 = network st @ [(n, \<lparr>req_url = url, req_kind = Fetch (getCacheKey url)\<rparr>)]"
    if "\<not> skipCache opts \<and> cachedFetch now url opts st = (Awaiting n, st1)"
    using that cachedFetch_Awaiting by blast
  have fetch: "(getItem (localStorage st2) cacheKey = Some (Doc e)
           \<longrightarrow> delivered m s (Awaiting m) = Some (Inr (data e))) \<and>
        (getItem (localStorage st2) cacheKey = None \<or>
         getItem (localStorage st2) cacheKey = Some Unparseable
           \<longrightarrow> delivered m s (Awaiting m) = Some (Inl NetworkFailure)) \<and>
        delivered m s (Attached m) = Some (Inl NetworkFailure) \<and>
        memoryCache (after s) = memoryCache st2 \<and> localStorage (after s) = localStorage st2"
    if h: "map_of (network st2) m = Some rq \<and> req_kind rq = Fetch cacheKey \<and>
      settle q t m NetFail st2 = Some s"
  proof -
    from h have "s = resume_fetch q t cacheKey NetFail (st2\<lparr>network := AList.delete m (network st2)\<rparr>)"
      using settle_Fetch [of st2 m rq cacheKey q t NetFail] by simp
    then show ?thesis
      by (auto simp: resume_fetch_def stale_fallback_def finally_delete_def)
  qed
  have refresh: "delivered m s (Attached m) = Some (Inr stale) \<and>
        memoryCache (after s) = memoryCache st2 \<and> localStorage (after s) = localStorage st2"
    if h: "map_of (network st2) m = Some rq \<and> req_kind rq = Refresh cacheKey stale \<and>
      settle q t m NetFail st2 = Some s"
  proof -
    from h have "s = resume_refresh q t cacheKey stale NetFail
        (st2\<lparr>network := AList.delete m (network st2)\<rparr>)"
      using settle_Refresh [of st2 m rq cacheKey stale q t NetFail] by simp
    then show ?thesis
      by (simp add: resume_refresh_def finally_delete_def)
  qed
  from issued fetch refresh show ?thesis by blast
qed

lemma restarted_miss:
  "customTTL opts = None \<Longrightarrow> \<not> skipCache opts \<Longrightarrow> \<not> staleWhileRevalidate opts \<Longrightarrow>
   25201000 \<le> now \<Longrightarrow>
   cachedFetch now room_url opts restarted =
     (Awaiting 0,
      restarted\<lparr>misses := 1,
                network := [(0, \<lparr>req_url = room_url, req_kind = Fetch (getCacheKey room_url)\<rparr>)],
                next_op := 1,
                inflight := if forceRefresh opts then Map.empty else [getCacheKey room_url \<mapsto> 0]\<rparr>)"
  by (simp add: cachedFetch_def read_cache_def read_localStorage_def getItem_def room_ttl
      isCacheValid_def rooms_entry_def fetch_from_network_def issue_def restarted_def
      initial_def Let_def)

theorem network_failure_fallback_witness:
  "\<not> skipCache default_options \<and>
   cachedFetch 25201000 room_url default_options restarted =
     (Awaiting 0,
      restarted\<lparr>misses := 1,
                network := [(0, \<lparr>req_url = room_url, req_kind = Fetch (getCacheKey room_url)\<rparr>)],
                next_op := 1, inflight := [getCacheKey room_url \<mapsto> 0]\<rparr>) \<and>
   getItem (localStorage restarted) (getCacheKey room_url) = Some (Doc rooms_entry) \<and>
   map_option (\<lambda>s. delivered 0 s (Awaiting 0))
     (settle accepting 25202000 0 NetFail
        (restarted\<lparr>misses := 1,
                  network := [(0, \<lparr>req_url = room_url, req_kind = Fetch (getCacheKey room_url)\<rparr>)],
                  next_op := 1, inflight := [getCacheKey room_url \<mapsto> 0]\<rparr>)) =
     Some (Some (Inr (JStr ''rooms''))) \<and>
   getItem [] (getCacheKey room_url) = None \<and>
   map_option (\<lambda>s. delivered 0 s (Awaiting 0))
     (settle accepting 25202000 0 NetFail
        ((initial [])\<lparr>network := [(0, \<lparr>req_url = room_url, req_kind = Fetch (getCacheKey room_url)\<rparr>)]\<rparr>)) =
     Some (Some (Inl NetworkFailure)) \<and>
   map_option (\<lambda>s. delivered 0 s (Attached 0))
     (settle accepting 25202000 0 NetFail
        ((initial [])\<lparr>network :=
           [(0, \<lparr>req_url = room_url, req_kind = Refresh (getCacheKey room_url) (JStr ''rooms'')\<rparr>)]\<rparr>)) =
     Some (Some (Inr (JStr ''rooms'')))"
proof -
  let ?rq = "\<lparr>req_url = room_url, req_kind = Fetch (getCacheKey room_url)\<rparr>"
  let ?rr = "\<lparr>req_url = room_url, req_kind = Refresh (getCacheKey room_url) (JStr ''rooms'')\<rparr>"
  let ?st1 = "restarted\<lparr>misses := 1, network := [(0, ?rq)], next_op := 1,
      inflight := [getCacheKey room_url \<mapsto> 0]\<rparr>"
  let ?st2 = "(initial [])\<lparr>network := [(0, ?rq)]\<rparr>"
  let ?st3 = "(initial [])\<lparr>network := [(0, ?rr)]\<rparr>"
  have d: "\<not> skipCache default_options" by (simp add: default_options_def)
  have c: "cachedFetch 25201000 room_url default_options restarted = (Awaiting 0, ?st1)"
    using restarted_miss [of default_options 25201000] by (simp add: default_options_def)
  have g: "getItem (localStorage restarted) (getCacheKey room_url) = Some (Doc rooms_entry)"
    "getItem [] (getCacheKey room_url) = None" "localStorage ?st2 = []"
    by (simp_all add: restarted_def initial_def getItem_def)
  let ?S1 = "resume_fetch accepting 25202000 (getCacheKey room_url) NetFail (?st1\<lparr>network := []\<rparr>)"
  let ?S2 = "resume_fetch accepting 25202000 (getCacheKey room_url) NetFail (?st2\<lparr>network := []\<rparr>)"
  let ?S3 = "resume_refresh accepting 25202000 (getCacheKey room_url) (JStr ''rooms'') NetFail
      (?st3\<lparr>network := []\<rparr>)"
  have s1: "settle accepting 25202000 0 NetFail ?st1 = Some ?S1"
    and s2: "settle accepting 25202000 0 NetFail ?st2 = Some ?S2"
    and s3: "settle accepting 25202000 0 NetFail ?st3 = Some ?S3"
    by (simp_all add: settle_def resume_def)
  have n1: "map_of (network ?st1) 0 = Some ?rq \<and> req_kind ?rq = Fetch (getCacheKey room_url)"
    and n2: "map_of (network ?st2) 0 = Some ?rq \<and> req_kind ?rq = Fetch (getCacheKey room_url)"
    and n3: "map_of (network ?st3) 0 = Some ?rr \<and>
      req_kind ?rr = Refresh (getCacheKey room_url) (JStr ''rooms'')"
    by simp_all
  have g1: "getItem (localStorage ?st1) (getCacheKey room_url) = Some (Doc rooms_entry)"
    and g2: "getItem (localStorage ?st2) (getCacheKey room_url) = None"
    using g by simp_all
  have r1: "delivered 0 ?S1 (Awaiting 0) = Some (Inr (JStr ''rooms''))"
    using network_failure_fallback [of default_options 25201000 room_url restarted 0 ?st1 ?st1 0 ?rq
      "getCacheKey room_url" accepting 25202000 ?S1 rooms_entry "JStr ''rooms''"] n1 s1 g1
    by (simp add: rooms_entry_def)
  have r2: "delivered 0 ?S2 (Awaiting 0) = Some (Inl NetworkFailure)"
    using network_failure_fallback [of default_options 25201000 room_url restarted 0 ?st1 ?st2 0 ?rq
      "getCacheKey room_url" accepting 25202000 ?S2 rooms_entry "JStr ''rooms''"] n2 s2 g2
    by simp
  have r3: "delivered 0 ?S3 (Attached 0) = Some (Inr (JStr ''rooms''))"
    using network_failure_fallback [of default_options 25201000 room_url restarted 0 ?st1 ?st3 0 ?rr
      "getCacheKey room_url" accepting 25202000 ?S3 rooms_entry "JStr ''rooms''"] n3 s3
    by simp
  show ?thesis
    unfolding s1 s2 s3 option.map using d c g(1,2) r1 r2 r3 by blast
qed

text \<open>
  Claim C9 as stated fails for a deduplicated caller. The store holds a stale entry for the
  key. Two calls with default options are made: the first issues the fetch, the second
  receives the promise in flight. The fetch fails: the first call settles with the stored
  data, the second with the network failure, although the stored entry exists.
\<close>

theorem attached_caller_gets_failure:
  "fst (calls [(25201000, room_url, default_options), (25201001, room_url, default_options)]
          restarted) = [Awaiting 0, Attached 0] \<and>
   getItem (localStorage (snd (calls [(25201000, room_url, default_options),
      (25201001, room_url, default_options)] restarted))) (getCacheKey room_url) =
     Some (Doc rooms_entry) \<and>
   map_option (\<lambda>s. (delivered 0 s (Awaiting 0), delivered 0 s (Attached 0)))
     (settle accepting 25202000 0 NetFail
        (snd (calls [(25201000, room_url, default_options),
                     (25201001, room_url, default_options)] restarted))) =
     Some (Some (Inr (JStr ''rooms'')), Some (Inl NetworkFailure))"
proof -
  have c1: "cachedFetch 25201000 room_url default_options restarted =
     (Awaiting 0,
      restarted\<lparr>misses := 1,
                network := [(0, \<lparr>req_url = room_url, req_kind = Fetch (getCacheKey room_url)\<rparr>)],
                next_op := 1, inflight := [getCacheKey room_url \<mapsto> 0]\<rparr>)"
    using restarted_miss [of default_options 25201000] by (simp add: default_options_def)
  have c2: "cachedFetch 25201001 room_url default_options
      (restarted\<lparr>misses := 1,
                network := [(0, \<lparr>req_url = room_url, req_kind = Fetch (getCacheKey room_url)\<rparr>)],
                next_op := 1, inflight := [getCacheKey room_url \<mapsto> 0]\<rparr>) =
     (Attached 0,
      restarted\<lparr>misses := 1,
                network := [(0, \<lparr>req_url = room_url, req_kind = Fetch (getCacheKey room_url)\<rparr>)],
                next_op := 1, inflight := [getCacheKey room_url \<mapsto> 0]\<rparr>)"
    by (simp add: cachedFetch_def default_options_def Let_def)
  have cs: "calls [(25201000, room_url, default_options), (25201001, room_url, default_options)]
      restarted =
     ([Awaiting 0, Attached 0],
      restarted\<lparr>misses := 1,
                network := [(0, \<lparr>req_url = room_url, req_kind = Fetch (getCacheKey room_url)\<rparr>)],
                next_op := 1, inflight := [getCacheKey room_url \<mapsto> 0]\<rparr>)"
    using c1 c2 by simp
  show ?thesis
    unfolding cs
    by (simp add: settle_def resume_def resume_fetch_def stale_fallback_def
        restarted_def initial_def getItem_def rooms_entry_def)
qed

subsection \<open>The guarded durable write\<close>

lemma getItem_filter:
  "getItem (filter (\<lambda>kv. \<not> P (fst kv)) s) k = (if P k then None else getItem s k)"
  by (induction s) (auto simp: getItem_def)

lemma clearOldCache_localStorage:
  "localStorage (snd (clearOldCache t st)) =
     filter (\<lambda>kv. \<not> (prefix CACHE_PREFIX (fst kv) \<and> expired t (getItem (localStorage st) (fst kv))))
       (localStorage st)"
  unfolding clearOldCache_def Let_def fold_removeItem remove_selected by simp

lemma clearOldCache_getItem:
  "getItem (localStorage (snd (clearOldCache t st))) k =
     (if prefix CACHE_PREFIX k \<and> expired t (getItem (localStorage st) k) then None
      else getItem (localStorage st) k)"
  unfolding clearOldCache_localStorage
  by (rule getItem_filter [of "\<lambda>k. prefix CACHE_PREFIX k \<and> expired t (getItem (localStorage st) k)"])

lemma clearOldCache_memory_irrelevant:
  "localStorage (snd (clearOldCache t (st\<lparr>memoryCache := m\<rparr>))) =
     localStorage (snd (clearOldCache t st))"
  by (simp add: clearOldCache_def Let_def)

lemma store_entry_quota:
  assumes "\<not> storageQuotaExceeded st"
    and "q (localStorage st) cacheKey (Doc \<lparr>timestamp = Some t, data = d\<rparr>) = Some ex"
    and "exn_name ex = ''QuotaExceededError'' \<or> exn_code ex = 22"
  shows "store_entry q t cacheKey d st =
    (case q (localStorage (snd (clearOldCache t st))) cacheKey (Doc \<lparr>timestamp = Some t, data = d\<rparr>) of
       None \<Rightarrow>
         st\<lparr>memoryCache := (memoryCache st)(cacheKey \<mapsto> \<lparr>timestamp = Some t, data = d\<rparr>),
            localStorage := AList.update cacheKey (Doc \<lparr>timestamp = Some t, data = d\<rparr>)
              (localStorage (snd (clearOldCache t st)))\<rparr>
     | Some ex2 \<Rightarrow>
         st\<lparr>memoryCache := (memoryCache st)(cacheKey \<mapsto> \<lparr>timestamp = Some t, data = d\<rparr>),
            localStorage := localStorage (snd (clearOldCache t st)),
            storageQuotaExceeded := True\<rparr>)"
  using assms
  by (auto simp: store_entry_def Let_def setItem_def clearOldCache_def split: option.split)

lemma store_entry_other:
  assumes "\<not> storageQuotaExceeded st"
    and "q (localStorage st) cacheKey (Doc \<lparr>timestamp = Some t, data = d\<rparr>) = Some ex"
    and "exn_name ex \<noteq> ''QuotaExceededError'' \<and> exn_code ex \<noteq> 22"
  shows "store_entry q t cacheKey d st =
    st\<lparr>memoryCache := (memoryCache st)(cacheKey \<mapsto> \<lparr>timestamp = Some t, data = d\<rparr>)\<rparr>"
  using assms by (simp add: store_entry_def Let_def setItem_def)

lemma read_localStorage_breaker:
  "read_localStorage now url cacheKey ttl swr st = Some (c, st1) \<Longrightarrow>
   storageQuotaExceeded st1 = storageQuotaExceeded st"
  by (auto simp: read_localStorage_def Let_def issue_def
      split: option.splits stored.splits if_splits)

lemma read_cache_breaker:
  "read_cache now url cacheKey ttl swr st = Some (c, st1) \<Longrightarrow>
   storageQuotaExceeded st1 = storageQuotaExceeded st"
  by (auto simp: read_cache_def split: option.splits if_splits dest: read_localStorage_breaker)

lemma cachedFetch_breaker:
  "storageQuotaExceeded (snd (cachedFetch now url opts st)) = storageQuotaExceeded st"
proof (cases "read_cache now url (getCacheKey url) (effective_ttl opts url)
    (staleWhileRevalidate opts) st")
  case None
  then show ?thesis
    by (simp add: cachedFetch_def fetch_from_network_def issue_def Let_def split: option.split)
next
  case (Some served)
  obtain c st1 where "served = (c, st1)" by (cases served)
  with Some read_cache_breaker show ?thesis
    by (auto simp: cachedFetch_def fetch_from_network_def issue_def Let_def split: option.split)
qed

lemma resume_breaker:
  "storageQuotaExceeded st \<Longrightarrow> storageQuotaExceeded (after (resume q t kind r st))"
  by (simp add: resume_def resume_fetch_def resume_refresh_def finally_delete_def
      store_entry_breaker store_refreshed_def Let_def
      split: op_kind.split net_result.split body.split sum.split)

lemma step_breaker: "storageQuotaExceeded st \<Longrightarrow> storageQuotaExceeded (step ev st)"
proof (cases ev)
  case (Call now url opts)
  assume "storageQuotaExceeded st"
  with Call show ?thesis by (simp add: cachedFetch_breaker)
next
  case (Settle q t n r)
  assume "storageQuotaExceeded st"
  with Settle show ?thesis by (simp add: settle_def resume_breaker split: option.split)
next
  case (ClearCache p)
  assume "storageQuotaExceeded st"
  with ClearCache show ?thesis by (simp add: clearCache_eq)
next
  case (ClearOldCache t)
  assume "storageQuotaExceeded st"
  with ClearOldCache show ?thesis by (simp add: clearOldCache_frame)
qed

lemma run_breaker: "storageQuotaExceeded st \<Longrightarrow> storageQuotaExceeded (run evs st)"
  unfolding run_def by (induction evs arbitrary: st) (simp_all add: step_breaker)

text \<open>
  Claim C5, as the code has it, for the durable write of a fetched entry (the miss path and
  \<^verbatim>\<open>forceRefresh\<close>). When that write fails with a quota error, \<^verbatim>\<open>clearOldCache\<close> removes
  every entry with the cache prefix that is older than 24 hours or does not parse, and keeps
  the rest; the write is tried once more on the cleaned store; when it fails again the
  circuit breaker is set. The breaker stays set whatever happens afterwards, and while it
  is set this path leaves \<^verbatim>\<open>localStorage\<close> alone.
  Another exception changes nothing. In every case the entry is in the memory cache and
  the call settles with the data: no write failure reaches a caller, on this path or in a
  background refresh. The durable write of a background refresh is not guarded: when the
  store refuses it, for whatever reason, \<^verbatim>\<open>localStorage\<close> is left exactly as it was, so
  nothing is evicted and no second write lands, and a refresh never changes the circuit
  breaker, whatever the network delivers.
\<close>

theorem guarded_write:
  "(\<not> storageQuotaExceeded st \<and>
    q (localStorage st) cacheKey (Doc \<lparr>timestamp = Some t, data = d\<rparr>) = Some ex \<and>
    (exn_name ex = ''QuotaExceededError'' \<or> exn_code ex = 22)
    \<longrightarrow> (\<forall>k. getItem (localStorage (snd (clearOldCache t st))) k =
              (if prefix CACHE_PREFIX k \<and> expired t (getItem (localStorage st) k) then None
               else getItem (localStorage st) k)) \<and>
        (\<forall>k e ts. prefix CACHE_PREFIX k \<and> getItem (localStorage st) k = Some (Doc e) \<and>
              timestamp e = Some ts \<and> 24 * 60 * 60 * 1000 < t - ts
              \<longrightarrow> getItem (localStorage (snd (clearOldCache t st))) k = None) \<and>
        (q (localStorage (snd (clearOldCache t st))) cacheKey (Doc \<lparr>timestamp = Some t, data = d\<rparr>) = None
         \<longrightarrow> localStorage (store_entry q t cacheKey d st) =
               AList.update cacheKey (Doc \<lparr>timestamp = Some t, data = d\<rparr>)
                 (localStorage (snd (clearOldCache t st))) \<and>
             \<not> storageQuotaExceeded (store_entry q t cacheKey d st)) \<and>
        (q (localStorage (snd (clearOldCache t st))) cacheKey (Doc \<lparr>timestamp = Some t, data = d\<rparr>) \<noteq> None
         \<longrightarrow> localStorage (store_entry q t cacheKey d st) = localStorage (snd (clearOldCache t st)) \<and>
             storageQuotaExceeded (store_entry q t cacheKey d st))) \<and>
   (\<not> storageQuotaExceeded st \<and>
    q (localStorage st) cacheKey (Doc \<lparr>timestamp = Some t, data = d\<rparr>) = Some ex \<and>
    exn_name ex \<noteq> ''QuotaExceededError'' \<and> exn_code ex \<noteq> 22
    \<longrightarrow> localStorage (store_entry q t cacheKey d st) = localStorage st \<and>
        \<not> storageQuotaExceeded (store_entry q t cacheKey d st)) \<and>
   (storageQuotaExceeded st
    \<longrightarrow> localStorage (store_entry q t cacheKey d st) = localStorage st \<and>
        storageQuotaExceeded (store_entry q t cacheKey d st) \<and>
        storageQuotaExceeded (run evs st)) \<and>
   memoryCache (store_entry q t cacheKey d st) =
     (memoryCache st)(cacheKey \<mapsto> \<lparr>timestamp = Some t, data = d\<rparr>) \<and>
   after (resume_fetch q t cacheKey (Response (Json d)) st) =
     finally_delete cacheKey (store_entry q t cacheKey d st) \<and>
   caller (resume_fetch q t cacheKey (Response (Json d)) st) = Some (Inr d) \<and>
   promise (resume_fetch q t cacheKey (Response (Json d)) st) = Inr d \<and>
   promise (resume_refresh q t cacheKey stale (Response (Json d)) st) = Inr d \<and>
   memoryCache (after (resume_refresh q t cacheKey stale (Response (Json d)) st)) =
     (memoryCache st)(cacheKey \<mapsto> \<lparr>timestamp = Some t, data = d\<rparr>) \<and>
   (q (localStorage st) cacheKey (Doc \<lparr>timestamp = Some t, data = d\<rparr>) = Some ex
    \<longrightarrow> localStorage (after (resume_refresh q t cacheKey stale (Response (Json d)) st)) =
          localStorage st) \<and>
   storageQuotaExceeded (after (resume_refresh q t cacheKey stale r st)) = storageQuotaExceeded st"
proof -
  let ?e = "Doc \<lparr>timestamp = Some t, data = d\<rparr>"
  let ?ev = "localStorage (snd (clearOldCache t st))"
  have quota: "(\<forall>k. getItem ?ev k =
              (if prefix CACHE_PREFIX k \<and> expired t (getItem (localStorage st) k) then None
               else getItem (localStorage st) k)) \<and>
        (\<forall>k e ts. prefix CACHE_PREFIX k \<and> getItem (localStorage st) k = Some (Doc e) \<and>
              timestamp e = Some ts \<and> 24 * 60 * 60 * 1000 < t - ts
              \<longrightarrow> getItem ?ev k = None) \<and>
        (q ?ev cacheKey ?e = None
         \<longrightarrow> localStorage (store_entry q t cacheKey d st) = AList.update cacheKey ?e ?ev \<and>
             \<not> storageQuotaExceeded (store_entry q t cacheKey d st)) \<and>
        (q ?ev cacheKey ?e \<noteq> None
         \<longrightarrow> localStorage (store_entry q t cacheKey d st) = ?ev \<and>
             storageQuotaExceeded (store_entry q t cacheKey d st))"
    if h: "\<not> storageQuotaExceeded st \<and> q (localStorage st) cacheKey ?e = Some ex \<and>
      (exn_name ex = ''QuotaExceededError'' \<or> exn_code ex = 22)"
  proof -
    have 1: "\<forall>k. getItem ?ev k =
              (if prefix CACHE_PREFIX k \<and> expired t (getItem (localStorage st) k) then None
               else getItem (localStorage st) k)"
      by (simp add: clearOldCache_getItem)
    have 2: "\<forall>k e ts. prefix CACHE_PREFIX k \<and> getItem (localStorage st) k = Some (Doc e) \<and>
              timestamp e = Some ts \<and> 24 * 60 * 60 * 1000 < t - ts
              \<longrightarrow> getItem ?ev k = None"
      by (simp add: clearOldCache_getItem expired_def)
    from h have eq: "store_entry q t cacheKey d st =
      (case q ?ev cacheKey ?e of
         None \<Rightarrow>
           st\<lparr>memoryCache := (memoryCache st)(cacheKey \<mapsto> \<lparr>timestamp = Some t, data = d\<rparr>),
              localStorage := AList.update cacheKey ?e ?ev\<rparr>
       | Some ex2 \<Rightarrow>
           st\<lparr>memoryCache := (memoryCache st)(cacheKey \<mapsto> \<lparr>timestamp = Some t, data = d\<rparr>),
              localStorage := ?ev, storageQuotaExceeded := True\<rparr>)"
      by (intro store_entry_quota) auto
    have 3: "q ?ev cacheKey ?e = None
         \<longrightarrow> localStorage (store_entry q t cacheKey d st) = AList.update cacheKey ?e ?ev \<and>
             \<not> storageQuotaExceeded (store_entry q t cacheKey d st)"
      using h by (simp add: eq)
    have 4: "q ?ev cacheKey ?e \<noteq> None
         \<longrightarrow> localStorage (store_entry q t cacheKey d st) = ?ev \<and>
             storageQuotaExceeded (store_entry q t cacheKey d st)"
      by (auto simp: eq)
    from 1 2 3 4 show ?thesis by blast
  qed
  have other: "localStorage (store_entry q t cacheKey d st) = localStorage st \<and>
        \<not> storageQuotaExceeded (store_entry q t cacheKey d st)"
    if "\<not> storageQuotaExceeded st \<and> q (localStorage st) cacheKey ?e = Some ex \<and>
      exn_name ex \<noteq> ''QuotaExceededError'' \<and> exn_code ex \<noteq> 22"
    using that store_entry_other [of st q cacheKey t d ex] by simp
  have disabled: "localStorage (store_entry q t cacheKey d st) = localStorage st \<and>
        storageQuotaExceeded (store_entry q t cacheKey d st) \<and>
        storageQuotaExceeded (run evs st)"
    if "storageQuotaExceeded st"
    using that store_entry_breaker [of st q t cacheKey d] run_breaker [of st evs] by simp
  have rest: "memoryCache (store_entry q t cacheKey d st) =
       (memoryCache st)(cacheKey \<mapsto> \<lparr>timestamp = Some t, data = d\<rparr>) \<and>
     after (resume_fetch q t cacheKey (Response (Json d)) st) =
       finally_delete cacheKey (store_entry q t cacheKey d st) \<and>
     caller (resume_fetch q t cacheKey (Response (Json d)) st) = Some (Inr d) \<and>
     promise (resume_fetch q t cacheKey (Response (Json d)) st) = Inr d \<and>
     promise (resume_refresh q t cacheKey stale (Response (Json d)) st) = Inr d"
    by (simp add: store_entry_memory resume_fetch_def resume_refresh_def)
  have refresh_memory:
    "memoryCache (after (resume_refresh q t cacheKey stale (Response (Json d)) st)) =
       (memoryCache st)(cacheKey \<mapsto> \<lparr>timestamp = Some t, data = d\<rparr>)"
    by (simp add: resume_refresh_def finally_delete_def store_refreshed_def setItem_def Let_def
        split: option.split)
  have refresh_failed:
    "localStorage (after (resume_refresh q t cacheKey stale (Response (Json d)) st)) =
       localStorage st"
    if "q (localStorage st) cacheKey ?e = Some ex"
    using that
    by (simp add: resume_refresh_def finally_delete_def store_refreshed_def setItem_def Let_def)
  have refresh_breaker:
    "storageQuotaExceeded (after (resume_refresh q t cacheKey stale r st)) =
       storageQuotaExceeded st"
    by (simp add: resume_refresh_def finally_delete_def store_refreshed_def setItem_def Let_def
        split: net_result.split body.split option.split)
  from quota other disabled rest refresh_memory refresh_failed refresh_breaker
  show ?thesis by blast
qed

lemma room_key:
  "getCacheKey room_url = ''TTMS_cache_-1750903860_aHR0cDovL3dlYi5mYy51dG0ubXkvdHRtcy93ZWJf''"
  by code_simp

lemma room_key_prefix: "prefix CACHE_PREFIX (getCacheKey room_url)"
  by (simp add: getCacheKey_def)

lemma cluttered_cleaned: "localStorage (snd (clearOldCache 172802000 cluttered)) = []"
  by (simp add: clearOldCache_localStorage cluttered_def initial_def getItem_def expired_def
      CACHE_PREFIX_def)

theorem guarded_write_witness:
  "\<not> storageQuotaExceeded cluttered \<and>
   full (localStorage cluttered) (getCacheKey room_url)
     (Doc \<lparr>timestamp = Some 172802000, data = JNum 7\<rparr>) = Some (DOMException ''QuotaExceededError'' 22) \<and>
   prefix CACHE_PREFIX ''TTMS_cache_old'' \<and>
   getItem (localStorage cluttered) ''TTMS_cache_old'' = Some (Doc \<lparr>timestamp = Some 1000, data = JNull\<rparr>) \<and>
   getItem (localStorage (snd (clearOldCache 172802000 cluttered))) ''TTMS_cache_old'' = None \<and>
   localStorage (store_entry full 172802000 (getCacheKey room_url) (JNum 7) cluttered) = [] \<and>
   storageQuotaExceeded (store_entry full 172802000 (getCacheKey room_url) (JNum 7) cluttered) \<and>
   one_slot (localStorage cluttered) (getCacheKey room_url)
     (Doc \<lparr>timestamp = Some 172802000, data = JNum 7\<rparr>) = Some (DOMException ''QuotaExceededError'' 22) \<and>
   localStorage (store_entry one_slot 172802000 (getCacheKey room_url) (JNum 7) cluttered) =
     [(getCacheKey room_url, Doc \<lparr>timestamp = Some 172802000, data = JNum 7\<rparr>)] \<and>
   \<not> storageQuotaExceeded (store_entry one_slot 172802000 (getCacheKey room_url) (JNum 7) cluttered) \<and>
   broken (localStorage cluttered) (getCacheKey room_url)
     (Doc \<lparr>timestamp = Some 172802000, data = JNum 7\<rparr>) = Some (DOMException ''SecurityError'' 18) \<and>
   localStorage (store_entry broken 172802000 (getCacheKey room_url) (JNum 7) cluttered) =
     localStorage cluttered \<and>
   storageQuotaExceeded (cluttered\<lparr>storageQuotaExceeded := True\<rparr>) \<and>
   localStorage (store_entry accepting 172802000 (getCacheKey room_url) (JNum 7)
     (cluttered\<lparr>storageQuotaExceeded := True\<rparr>)) = localStorage cluttered \<and>
   storageQuotaExceeded
     (run [Call 172803000 room_url default_options,
           Settle accepting 172804000 0 (Response (Json (JNum 8)))]
        (cluttered\<lparr>storageQuotaExceeded := True\<rparr>)) \<and>
   caller (resume_fetch full 172802000 (getCacheKey room_url) (Response (Json (JNum 7))) cluttered) =
     Some (Inr (JNum 7)) \<and>
   localStorage (after (resume_refresh full 172802000 (getCacheKey room_url) JNull
     (Response (Json (JNum 7))) cluttered)) = localStorage cluttered \<and>
   \<not> storageQuotaExceeded (after (resume_refresh full 172802000 (getCacheKey room_url) JNull
     (Response (Json (JNum 7))) cluttered))"
proof -
  let ?k = "getCacheKey room_url"
  let ?e = "Doc \<lparr>timestamp = Some 172802000, data = JNum 7\<rparr>"
  let ?qx = "DOMException ''QuotaExceededError'' 22"
  have c: "\<not> storageQuotaExceeded cluttered"
    "localStorage cluttered = [(''TTMS_cache_old'', Doc \<lparr>timestamp = Some 1000, data = JNull\<rparr>)]"
    by (simp_all add: cluttered_def initial_def)
  have p: "prefix CACHE_PREFIX ''TTMS_cache_old''" by (simp add: CACHE_PREFIX_def)
  have g: "getItem (localStorage cluttered) ''TTMS_cache_old'' =
      Some (Doc \<lparr>timestamp = Some 1000, data = JNull\<rparr>)"
    by (simp add: c getItem_def)
  have f1: "full (localStorage cluttered) ?k ?e = Some ?qx" by (simp add: full_def)
  have f2: "full (localStorage (snd (clearOldCache 172802000 cluttered))) ?k ?e \<noteq> None"
    by (simp add: full_def)
  have o1: "one_slot (localStorage cluttered) ?k ?e = Some ?qx"
    by (simp add: one_slot_def c room_key)
  have o2: "one_slot (localStorage (snd (clearOldCache 172802000 cluttered))) ?k ?e = None"
    by (simp add: one_slot_def cluttered_cleaned)
  have b: "broken (localStorage cluttered) ?k ?e = Some (DOMException ''SecurityError'' 18)"
    by (simp add: broken_def)
  note a = guarded_write [of cluttered full ?k 172802000 "JNum 7" ?qx "[]" JNull
      "Response (Json (JNum 7))"]
  note b' = guarded_write [of cluttered one_slot ?k 172802000 "JNum 7" ?qx "[]" JNull NetFail]
  note c' = guarded_write [of cluttered broken ?k 172802000 "JNum 7"
      "DOMException ''SecurityError'' 18" "[]" JNull NetFail]
  note d' = guarded_write [of "cluttered\<lparr>storageQuotaExceeded := True\<rparr>" accepting ?k
      172802000 "JNum 7" ?qx
      "[Call 172803000 room_url default_options,
        Settle accepting 172804000 0 (Response (Json (JNum 8)))]" JNull NetFail]
  have r1: "getItem (localStorage (snd (clearOldCache 172802000 cluttered))) ''TTMS_cache_old'' = None"
    "localStorage (store_entry full 172802000 ?k (JNum 7) cluttered) = []"
    "storageQuotaExceeded (store_entry full 172802000 ?k (JNum 7) cluttered)"
    "caller (resume_fetch full 172802000 ?k (Response (Json (JNum 7))) cluttered) = Some (Inr (JNum 7))"
    using a c(1) f1 f2 cluttered_cleaned by (simp_all add: getItem_def)
  have r2: "localStorage (store_entry one_slot 172802000 ?k (JNum 7) cluttered) = [(?k, ?e)]"
    "\<not> storageQuotaExceeded (store_entry one_slot 172802000 ?k (JNum 7) cluttered)"
    using b' c(1) o1 o2 cluttered_cleaned by simp_all
  have r3: "localStorage (store_entry broken 172802000 ?k (JNum 7) cluttered) = localStorage cluttered"
    using c' c(1) b by simp
  have r4: "storageQuotaExceeded (cluttered\<lparr>storageQuotaExceeded := True\<rparr>)"
    "localStorage (store_entry accepting 172802000 ?k (JNum 7)
       (cluttered\<lparr>storageQuotaExceeded := True\<rparr>)) = localStorage cluttered"
    "storageQuotaExceeded
       (run [Call 172803000 room_url default_options,
             Settle accepting 172804000 0 (Response (Json (JNum 8)))]
          (cluttered\<lparr>storageQuotaExceeded := True\<rparr>))"
    using d' by simp_all
  have r5: "localStorage (after (resume_refresh full 172802000 ?k JNull
       (Response (Json (JNum 7))) cluttered)) = localStorage cluttered"
    "\<not> storageQuotaExceeded (after (resume_refresh full 172802000 ?k JNull
       (Response (Json (JNum 7))) cluttered))"
    using a c(1) f1 by simp_all
  from c(1) f1 p g r1 o1 r2 b r3 r4 r5 show ?thesis by blast
qed

lemma restarted_stale_served:
  "customTTL opts = None \<Longrightarrow> \<not> skipCache opts \<Longrightarrow> \<not> forceRefresh opts \<Longrightarrow>
   staleWhileRevalidate opts \<Longrightarrow> 21601000 \<le> now \<Longrightarrow>
   cachedFetch now room_url opts restarted =
     (Returned (JStr ''rooms''),
      restarted\<lparr>hits := 1,
                network := [(0, \<lparr>req_url = room_url,
                                 req_kind = Refresh (getCacheKey room_url) (JStr ''rooms'')\<rparr>)],
                next_op := 1, inflight := [getCacheKey room_url \<mapsto> 0]\<rparr>)"
  by (simp add: cachedFetch_def read_cache_def read_localStorage_def getItem_def room_ttl
      isCacheValid_def rooms_entry_def issue_def restarted_def initial_def Let_def)

text \<open>
  Claim C5 as stated fails for the durable write of a background refresh. The store rejects
  the write with a quota error; the entry of the cache that is older than 24 hours stays in
  \<^verbatim>\<open>localStorage\<close>, and the circuit breaker is not set.
\<close>

theorem refresh_write_unguarded:
  "fst (cachedFetch 172801000 room_url (default_options\<lparr>staleWhileRevalidate := True\<rparr>) restarted) =
     Returned (JStr ''rooms'') \<and>
   full (localStorage restarted) (getCacheKey room_url)
     (Doc \<lparr>timestamp = Some 172802000, data = JNum 7\<rparr>) = Some (DOMException ''QuotaExceededError'' 22) \<and>
   prefix CACHE_PREFIX (getCacheKey room_url) \<and>
   expired 172802000 (Some (Doc rooms_entry)) \<and>
   map_option (\<lambda>s. (localStorage (after s), storageQuotaExceeded (after s), promise s))
     (settle full 172802000 0 (Response (Json (JNum 7)))
        (snd (cachedFetch 172801000 room_url (default_options\<lparr>staleWhileRevalidate := True\<rparr>)
           restarted))) =
     Some ([(getCacheKey room_url, Doc rooms_entry)], False, Inr (JNum 7))"
proof -
  have c: "cachedFetch 172801000 room_url (default_options\<lparr>staleWhileRevalidate := True\<rparr>) restarted =
     (Returned (JStr ''rooms''),
      restarted\<lparr>hits := 1,
                network := [(0, \<lparr>req_url = room_url,
                                 req_kind = Refresh (getCacheKey room_url) (JStr ''rooms'')\<rparr>)],
                next_op := 1, inflight := [getCacheKey room_url \<mapsto> 0]\<rparr>)"
    by (rule restarted_stale_served) (simp_all add: default_options_def)
  show ?thesis
    unfolding c
    by (simp add: room_key_prefix full_def expired_def rooms_entry_def settle_def resume_def
        resume_refresh_def store_refreshed_def setItem_def finally_delete_def restarted_def
        initial_def Let_def)
qed

subsection \<open>A malformed response\<close>

text \<open>
  Claim C1, at a failing input. The store holds a stale entry for the key, and a call with
  default options fetches from the network. The body is not valid JSON: nothing is written
  to either tier, and the promise of the fetch is rejected with the invalid-JSON error, but
  the \<^verbatim>\<open>catch\<close> block of the call finds the stored entry and the call settles with its
  stale data instead of the failure.
\<close>

theorem parse_failure_masked_by_stale_entry:
  "fst (cachedFetch 25201000 room_url default_options restarted) = Awaiting 0 \<and>
   getItem (localStorage restarted) (getCacheKey room_url) = Some (Doc rooms_entry) \<and>
   map_option (\<lambda>s. (caller s, promise s, memoryCache (after s) (getCacheKey room_url),
                     localStorage (after s)))
     (settle accepting 25202000 0 (Response Malformed)
        (snd (cachedFetch 25201000 room_url default_options restarted))) =
     Some (Some (Inr (JStr ''rooms'')), Inl InvalidJson, None, localStorage restarted)"
proof -
  have c: "cachedFetch 25201000 room_url default_options restarted =
     (Awaiting 0,
      restarted\<lparr>misses := 1,
                network := [(0, \<lparr>req_url = room_url, req_kind = Fetch (getCacheKey room_url)\<rparr>)],
                next_op := 1, inflight := [getCacheKey room_url \<mapsto> 0]\<rparr>)"
    using restarted_miss [of default_options 25201000] by (simp add: default_options_def)
  show ?thesis
    unfolding c
    by (simp add: settle_def resume_def resume_fetch_def stale_fallback_def finally_delete_def
        restarted_def initial_def getItem_def rooms_entry_def)
qed

subsection \<open>The circuit breaker and the background refresh\<close>

text \<open>
  Claim C2, at a failing input. The store is full when the entry fetched by a first call is
  written: the write fails twice and the circuit breaker is set, with the old entry still
  in \<^verbatim>\<open>localStorage\<close>. Later the store accepts writes again. A call with
  \<^verbatim>\<open>staleWhileRevalidate\<close> serves the stale entry and refreshes in the background; the
  refresh writes its entry to \<^verbatim>\<open>localStorage\<close> although the breaker is still set.
\<close>

theorem refresh_writes_after_breaker:
  "storageQuotaExceeded
     (run [Call 25201000 room_url default_options,
           Settle full 25202000 0 (Response (Json (JNum 7)))] restarted) \<and>
   localStorage
     (run [Call 25201000 room_url default_options,
           Settle full 25202000 0 (Response (Json (JNum 7)))] restarted) =
     [(getCacheKey room_url, Doc rooms_entry)] \<and>
   storageQuotaExceeded
     (run [Call 25201000 room_url default_options,
           Settle full 25202000 0 (Response (Json (JNum 7))),
           Call 50000000 room_url (default_options\<lparr>staleWhileRevalidate := True\<rparr>),
           Settle accepting 50001000 1 (Response (Json (JNum 8)))] restarted) \<and>
   localStorage
     (run [Call 25201000 room_url default_options,
           Settle full 25202000 0 (Response (Json (JNum 7))),
           Call 50000000 room_url (default_options\<lparr>staleWhileRevalidate := True\<rparr>),
           Settle accepting 50001000 1 (Response (Json (JNum 8)))] restarted) =
     [(getCacheKey room_url, Doc \<lparr>timestamp = Some 50001000, data = JNum 8\<rparr>)]"
proof -
  let ?k = "getCacheKey room_url"
  let ?st1 = "restarted\<lparr>misses := 1,
      network := [(0, \<lparr>req_url = room_url, req_kind = Fetch ?k\<rparr>)],
      next_op := 1, inflight := [?k \<mapsto> 0]\<rparr>"
  let ?st2 = "restarted\<lparr>misses := 1, network := [], next_op := 1,
      memoryCache := [?k \<mapsto> \<lparr>timestamp = Some 25202000, data = JNum 7\<rparr>],
      storageQuotaExceeded := True\<rparr>"
  let ?st3 = "?st2\<lparr>hits := 1,
      network := [(1, \<lparr>req_url = room_url, req_kind = Refresh ?k (JStr ''rooms'')\<rparr>)],
      next_op := 2, inflight := [?k \<mapsto> 1]\<rparr>"
  let ?st4 = "?st3\<lparr>network := [], inflight := Map.empty,
      memoryCache := [?k \<mapsto> \<lparr>timestamp = Some 50001000, data = JNum 8\<rparr>],
      localStorage := [(?k, Doc \<lparr>timestamp = Some 50001000, data = JNum 8\<rparr>)]\<rparr>"
  have 1: "step (Call 25201000 room_url default_options) restarted = ?st1"
    using restarted_miss [of default_options 25201000] by (simp add: default_options_def)
  have 2: "step (Settle full 25202000 0 (Response (Json (JNum 7)))) ?st1 = ?st2"
    by (simp add: settle_def resume_def resume_fetch_def store_entry_def setItem_def full_def
        clearOldCache_def removeItem_def finally_delete_def restarted_def initial_def
        getItem_def expired_def rooms_entry_def room_key_prefix Let_def)
  have 3: "step (Call 50000000 room_url (default_options\<lparr>staleWhileRevalidate := True\<rparr>)) ?st2 = ?st3"
    by (simp add: cachedFetch_def read_cache_def read_localStorage_def getItem_def room_ttl
        isCacheValid_def rooms_entry_def issue_def restarted_def initial_def
        default_options_def Let_def)
  have 4: "step (Settle accepting 50001000 1 (Response (Json (JNum 8)))) ?st3 = ?st4"
    by (simp add: settle_def resume_def resume_refresh_def store_refreshed_def setItem_def
        accepting_def finally_delete_def restarted_def initial_def Let_def)
  have a: "run [Call 25201000 room_url default_options,
           Settle full 25202000 0 (Response (Json (JNum 7)))] restarted = ?st2"
    by (simp only: run_def fold_simps 1 2 comp_apply id_apply)
  have b: "run [Call 25201000 room_url default_options,
           Settle full 25202000 0 (Response (Json (JNum 7))),
           Call 50000000 room_url (default_options\<lparr>staleWhileRevalidate := True\<rparr>),
           Settle accepting 50001000 1 (Response (Json (JNum 8)))] restarted = ?st4"
    by (simp only: run_def fold_simps 1 2 3 4 comp_apply id_apply)
  show ?thesis
    unfolding a b by (simp add: restarted_def initial_def)
qed

subsection \<open>The in-flight registry\<close>

lemma registry_ok_initial: "registry_ok (initial s)"
  by (simp add: registry_ok_def initial_def)

lemma registry_ok_same:
  assumes "registry_ok st" "network st1 = network st" "next_op st1 = next_op st"
    "inflight st1 = inflight st"
  shows "registry_ok st1"
  using assms by (simp add: registry_ok_def)

lemma registry_ok_direct:
  assumes "registry_ok st"
    and "network st1 = network st @ [(next_op st, \<lparr>req_url = url, req_kind = Direct\<rparr>)]"
    and "next_op st1 = Suc (next_op st)" "inflight st1 = inflight st"
  shows "registry_ok st1"
  using assms by (fastforce simp: registry_ok_def)

lemma registry_ok_ticket:
  assumes "registry_ok st" "inflight st cacheKey = None" "op_key kind = Some cacheKey"
    and "network st1 = network st @ [(next_op st, \<lparr>req_url = url, req_kind = kind\<rparr>)]"
    and "next_op st1 = Suc (next_op st)"
    and "inflight st1 = (inflight st)(cacheKey \<mapsto> next_op st)"
  shows "registry_ok st1"
proof -
  have below: "n < next_op st" if "(n, rq) \<in> set (network st)" for n rq
    using that assms(1) by (auto simp: registry_ok_def)
  have ticket: "inflight st k = Some n"
    if "(n, rq) \<in> set (network st)" "op_key (req_kind rq) = Some k" for n rq k
    using that assms(1) by (auto simp: registry_ok_def)
  have fresh: "next_op st \<notin> fst ` set (network st)"
    using below by fastforce
  have d: "distinct (map fst (network st1))"
    using assms(1) fresh by (simp add: assms(4) registry_ok_def)
  have each: "n < next_op st1 \<and> (\<forall>k. op_key (req_kind rq) = Some k \<longrightarrow> inflight st1 k = Some n)"
    if m: "(n, rq) \<in> set (network st1)" for n rq
  proof (cases "(n, rq) \<in> set (network st)")
    case True
    have "inflight st1 k = Some n" if h: "op_key (req_kind rq) = Some k" for k
    proof -
      from ticket [OF True h] assms(2) have "k \<noteq> cacheKey" by auto
      with ticket [OF True h] show ?thesis by (simp add: assms(6))
    qed
    with below [OF True] show ?thesis by (simp add: assms(5))
  next
    case False
    with m have "n = next_op st" "rq = \<lparr>req_url = url, req_kind = kind\<rparr>"
      by (simp_all add: assms(4))
    then show ?thesis by (simp add: assms(3,5,6))
  qed
  from d each show ?thesis unfolding registry_ok_def by blast
qed

lemma registry_ok_settled:
  assumes ok: "registry_ok st" and op: "map_of (network st) n = Some rq"
    and net: "network st1 = AList.delete n (network st)" and nxt: "next_op st1 = next_op st"
    and reg: "inflight st1 = (case op_key (req_kind rq) of
                 None \<Rightarrow> inflight st | Some k \<Rightarrow> (inflight st)(k := None))"
  shows "registry_ok st1"
proof -
  from op have mem: "(n, rq) \<in> set (network st)" by (rule map_of_SomeD)
  have rest: "set (AList.delete n (network st)) = {x \<in> set (network st). fst x \<noteq> n}"
    by (auto simp: AList.delete_eq)
  have d: "distinct (map fst (AList.delete n (network st)))"
    using ok by (simp add: registry_ok_def distinct_delete)
  have each: "m < next_op st \<and> (\<forall>k. op_key (req_kind r) = Some k \<longrightarrow> inflight st1 k = Some m)"
    if "(m, r) \<in> set (network st)" "m \<noteq> n" for m r
  proof -
    from that(1) ok have m: "m < next_op st"
      and k: "\<And>k. op_key (req_kind r) = Some k \<Longrightarrow> inflight st k = Some m"
      by (auto simp: registry_ok_def)
    have "inflight st1 k = Some m" if h: "op_key (req_kind r) = Some k" for k
    proof (cases "op_key (req_kind rq)")
      case None
      with reg k [OF h] show ?thesis by simp
    next
      case (Some k')
      from mem ok Some have "inflight st k' = Some n" by (auto simp: registry_ok_def)
      with k [OF h] \<open>m \<noteq> n\<close> have "k \<noteq> k'" by auto
      with reg Some k [OF h] show ?thesis by simp
    qed
    with m show ?thesis by blast
  qed
  show ?thesis
    unfolding registry_ok_def net nxt using d each by (auto simp: rest)
qed

lemma at_most_one:
  "distinct (map fst xs) \<Longrightarrow> \<forall>x \<in> set xs. P x \<longrightarrow> fst x = m \<Longrightarrow> length (filter P xs) \<le> 1"
proof (induction xs)
  case Nil
  then show ?case by simp
next
  case (Cons x xs)
  show ?case
  proof (cases "P x")
    case True
    have "\<not> P y" if y: "y \<in> set xs" for y
    proof
      assume "P y"
      with y True Cons.prems(2) have "fst y = fst x" by simp
      with y have "fst x \<in> fst ` set xs" by (metis image_eqI)
      with Cons.prems(1) show False by simp
    qed
    then have "filter P xs = []" by (simp add: filter_empty_conv)
    with True show ?thesis by simp
  next
    case False
    with Cons show ?thesis by simp
  qed
qed

lemma registry_ok_outstanding:
  assumes "registry_ok st"
  shows "length (outstanding k st) \<le> 1"
proof -
  have same: "\<forall>x \<in> set (network st). (case x of (n, rq) \<Rightarrow> op_key (req_kind rq) = Some k)
      \<longrightarrow> fst x = the (inflight st k)"
    using assms by (auto simp: registry_ok_def)
  have d: "distinct (map fst (network st))" using assms by (simp add: registry_ok_def)
  show ?thesis
    unfolding outstanding_def length_map using d same by (rule at_most_one)
qed

lemma read_localStorage_effect:
  assumes "read_localStorage now url cacheKey ttl swr st = Some (c, st1)"
    and "inflight st cacheKey = None"
  shows "(network st1 = network st \<and> next_op st1 = next_op st \<and> inflight st1 = inflight st) \<or>
         (\<exists>d. network st1 = network st @ [(next_op st, \<lparr>req_url = url, req_kind = Refresh cacheKey d\<rparr>)] \<and>
              next_op st1 = Suc (next_op st) \<and>
              inflight st1 = (inflight st)(cacheKey \<mapsto> next_op st))"
  using assms
  by (auto simp: read_localStorage_def Let_def issue_def
      split: option.splits stored.splits if_splits)

lemma read_cache_effect:
  assumes "read_cache now url cacheKey ttl swr st = Some (c, st1)"
    and "inflight st cacheKey = None"
  shows "(network st1 = network st \<and> next_op st1 = next_op st \<and> inflight st1 = inflight st) \<or>
         (\<exists>d. network st1 = network st @ [(next_op st, \<lparr>req_url = url, req_kind = Refresh cacheKey d\<rparr>)] \<and>
              next_op st1 = Suc (next_op st) \<and>
              inflight st1 = (inflight st)(cacheKey \<mapsto> next_op st))"
proof (cases "read_localStorage now url cacheKey ttl swr st = Some (c, st1)")
  case True
  then show ?thesis using assms(2) by (rule read_localStorage_effect)
next
  case False
  with assms(1) have "st1 = st\<lparr>hits := Suc (hits st)\<rparr>"
    by (auto simp: read_cache_def split: option.splits if_splits)
  then show ?thesis by simp
qed

lemma registry_ok_call:
  assumes ok: "registry_ok st" and ded: "deduplicated (Call now url opts)"
  shows "registry_ok (step (Call now url opts) st)"
proof (cases "skipCache opts")
  case True
  then have "step (Call now url opts) st =
      st\<lparr>network := network st @ [(next_op st, \<lparr>req_url = url, req_kind = Direct\<rparr>)],
         next_op := Suc (next_op st)\<rparr>"
    by (simp add: cachedFetch_skipCache)
  with ok show ?thesis
    by (simp add: registry_ok_direct [of st _ url])
next
  case False
  with ded have nf: "\<not> forceRefresh opts" by simp
  show ?thesis
  proof (cases "inflight st (getCacheKey url)")
    case (Some p)
    with False nf ok show ?thesis by (simp add: cachedFetch_def)
  next
    case None
    show ?thesis
    proof (cases "read_cache now url (getCacheKey url) (effective_ttl opts url)
        (staleWhileRevalidate opts) st")
      case (Some served)
      obtain c st1 where s: "served = (c, st1)" by (cases served)
      with Some False nf None have st1: "step (Call now url opts) st = st1"
        by (simp add: cachedFetch_def)
      from Some s None read_cache_effect
      have "(network st1 = network st \<and> next_op st1 = next_op st \<and> inflight st1 = inflight st) \<or>
         (\<exists>d. network st1 = network st @
                 [(next_op st, \<lparr>req_url = url, req_kind = Refresh (getCacheKey url) d\<rparr>)] \<and>
              next_op st1 = Suc (next_op st) \<and>
              inflight st1 = (inflight st)(getCacheKey url \<mapsto> next_op st))"
        by blast
      then show ?thesis
      proof
        assume "network st1 = network st \<and> next_op st1 = next_op st \<and> inflight st1 = inflight st"
        with ok show ?thesis unfolding st1 using registry_ok_same [of st st1] by simp
      next
        assume "\<exists>d. network st1 = network st @
                 [(next_op st, \<lparr>req_url = url, req_kind = Refresh (getCacheKey url) d\<rparr>)] \<and>
              next_op st1 = Suc (next_op st) \<and>
              inflight st1 = (inflight st)(getCacheKey url \<mapsto> next_op st)"
        then obtain d where "network st1 = network st @
                 [(next_op st, \<lparr>req_url = url, req_kind = Refresh (getCacheKey url) d\<rparr>)]"
          "next_op st1 = Suc (next_op st)"
          "inflight st1 = (inflight st)(getCacheKey url \<mapsto> next_op st)" by blast
        with ok None show ?thesis
          unfolding st1
          using registry_ok_ticket [of st "getCacheKey url" "Refresh (getCacheKey url) d" st1 url]
          by simp
      qed
    next
      case none: None
      with False nf None have st1: "step (Call now url opts) st =
          st\<lparr>misses := Suc (misses st),
             network := network st @ [(next_op st, \<lparr>req_url = url, req_kind = Fetch (getCacheKey url)\<rparr>)],
             next_op := Suc (next_op st),
             inflight := (inflight st)(getCacheKey url \<mapsto> next_op st)\<rparr>"
        by (simp add: cachedFetch_def fetch_from_network_def issue_def Let_def)
      show ?thesis
        unfolding st1 using ok None
        by (simp add: registry_ok_ticket [of st "getCacheKey url" "Fetch (getCacheKey url)" _ url])
    qed
  qed
qed

lemma store_refreshed_frame:
  "inflight (store_refreshed q t cacheKey d st) = inflight st"
  "network (store_refreshed q t cacheKey d st) = network st"
  "next_op (store_refreshed q t cacheKey d st) = next_op st"
  by (simp_all add: store_refreshed_def Let_def split: sum.split)

lemma resume_frame:
  "network (after (resume q t kind r st)) = network st"
  "next_op (after (resume q t kind r st)) = next_op st"
  "inflight (after (resume q t kind r st)) =
     (case op_key kind of None \<Rightarrow> inflight st | Some k \<Rightarrow> (inflight st)(k := None))"
  by (simp_all add: resume_def resume_fetch_def resume_refresh_def finally_delete_def
      store_entry_frame store_refreshed_frame
      split: op_kind.split net_result.split body.split)

lemma registry_ok_settle:
  assumes ok: "registry_ok st"
  shows "registry_ok (step (Settle q t n r) st)"
proof (cases "map_of (network st) n")
  case None
  with ok show ?thesis by (simp add: settle_def)
next
  case (Some rq)
  let ?st0 = "st\<lparr>network := AList.delete n (network st)\<rparr>"
  from Some have s: "step (Settle q t n r) st = after (resume q t (req_kind rq) r ?st0)"
    by (simp add: settle_def)
  show ?thesis
    unfolding s using ok Some
    by (simp add: registry_ok_settled [of st n rq] resume_frame split: option.split)
qed

lemma registry_ok_step:
  "registry_ok st \<Longrightarrow> deduplicated ev \<Longrightarrow> registry_ok (step ev st)"
proof (cases ev)
  case (Call now url opts)
  assume "registry_ok st" "deduplicated ev"
  with Call show ?thesis using registry_ok_call by simp
next
  case (Settle q t n r)
  assume "registry_ok st"
  with Settle show ?thesis using registry_ok_settle by simp
next
  case (ClearCache p)
  assume "registry_ok st"
  with ClearCache show ?thesis
    by (simp add: clearCache_eq registry_ok_same [of st])
next
  case (ClearOldCache t)
  assume "registry_ok st"
  with ClearOldCache show ?thesis
    by (simp add: clearOldCache_frame registry_ok_same [of st])
qed

lemma registry_ok_run:
  "registry_ok st \<Longrightarrow> list_all deduplicated evs \<Longrightarrow> registry_ok (run evs st)"
  unfolding run_def
  by (induction evs arbitrary: st) (simp_all add: registry_ok_step)

lemma first_call_misses:
  assumes "memoryCache st (getCacheKey url) = None"
    and "getItem (localStorage st) (getCacheKey url) = None"
    and "inflight st (getCacheKey url) = None"
    and "\<not> skipCache opts" "\<not> forceRefresh opts"
  shows "cachedFetch now url opts st =
    (Awaiting (next_op st),
     st\<lparr>misses := Suc (misses st),
        network := network st @ [(next_op st, \<lparr>req_url = url, req_kind = Fetch (getCacheKey url)\<rparr>)],
        next_op := Suc (next_op st),
        inflight := (inflight st)(getCacheKey url \<mapsto> next_op st)\<rparr>)"
  using assms
  by (simp add: cachedFetch_def read_cache_def read_localStorage_def fetch_from_network_def
      issue_def Let_def)

lemma later_calls_attach:
  assumes "inflight st (getCacheKey url) = Some p"
  shows "calls (map (\<lambda>t. (t, url, default_options)) ts) st = (replicate (length ts) (Attached p), st)"
proof (induction ts)
  case Nil
  show ?case by simp
next
  case (Cons t ts)
  have "cachedFetch t url default_options st = (Attached p, st)"
    using assms by (simp add: cachedFetch_def default_options_def Let_def)
  with Cons show ?case by simp
qed

lemma concurrent_calls:
  assumes "getItem s (getCacheKey url) = None"
  shows "calls (map (\<lambda>t. (t, url, default_options)) (t0 # ts)) (initial s) =
    (Awaiting 0 # replicate (length ts) (Attached 0),
     (initial s)\<lparr>misses := 1,
        network := [(0, \<lparr>req_url = url, req_kind = Fetch (getCacheKey url)\<rparr>)],
        next_op := 1, inflight := [getCacheKey url \<mapsto> 0]\<rparr>)"
proof -
  let ?st1 = "(initial s)\<lparr>misses := 1,
        network := [(0, \<lparr>req_url = url, req_kind = Fetch (getCacheKey url)\<rparr>)],
        next_op := 1, inflight := [getCacheKey url \<mapsto> 0]\<rparr>"
  have "cachedFetch t0 url default_options (initial s) = (Awaiting (next_op (initial s)),
     (initial s)\<lparr>misses := Suc (misses (initial s)),
        network := network (initial s) @
          [(next_op (initial s), \<lparr>req_url = url, req_kind = Fetch (getCacheKey url)\<rparr>)],
        next_op := Suc (next_op (initial s)),
        inflight := (inflight (initial s))(getCacheKey url \<mapsto> next_op (initial s))\<rparr>)"
    using assms by (intro first_call_misses) (simp_all add: initial_def default_options_def)
  then have first: "cachedFetch t0 url default_options (initial s) = (Awaiting 0, ?st1)"
    by (simp add: initial_def)
  have "inflight ?st1 (getCacheKey url) = Some 0" by simp
  then have "calls (map (\<lambda>t. (t, url, default_options)) ts) ?st1 =
      (replicate (length ts) (Attached 0), ?st1)"
    by (rule later_calls_attach)
  with first show ?thesis by simp
qed

lemma one_fetch_settles_all:
  assumes "getItem s (getCacheKey url) = None"
  shows "\<exists>sres.
    settle q t 0 r
      ((initial s)\<lparr>misses := 1,
        network := [(0, \<lparr>req_url = url, req_kind = Fetch (getCacheKey url)\<rparr>)],
        next_op := 1, inflight := [getCacheKey url \<mapsto> 0]\<rparr>) = Some sres \<and>
    map (delivered 0 sres) (Awaiting 0 # replicate n (Attached 0)) =
      replicate (Suc n) (Some (fetch_outcome r))"
proof -
  let ?st1 = "(initial s)\<lparr>misses := 1,
        network := [(0, \<lparr>req_url = url, req_kind = Fetch (getCacheKey url)\<rparr>)],
        next_op := 1, inflight := [getCacheKey url \<mapsto> 0]\<rparr>"
  let ?sres = "resume_fetch q t (getCacheKey url) r (?st1\<lparr>network := []\<rparr>)"
  have s: "settle q t 0 r ?st1 = Some ?sres" by (simp add: settle_def resume_def)
  have c: "caller ?sres = Some (fetch_outcome r)"
    using assms
    by (simp add: resume_fetch_def stale_fallback_def fetch_outcome_def initial_def
        split: net_result.split body.split)
  have p: "promise ?sres = fetch_outcome r"
    by (simp add: resume_fetch_def fetch_outcome_def split: net_result.split body.split)
  have "map (delivered 0 ?sres) (Awaiting 0 # replicate n (Attached 0)) =
      replicate (Suc n) (Some (fetch_outcome r))"
    using c p by simp
  with s show ?thesis by blast
qed

text \<open>
  Claim C4, as the code has it. As long as no call uses \<^verbatim>\<open>forceRefresh\<close> (without
  \<^verbatim>\<open>skipCache\<close>), at most one network operation is outstanding for a cache key after any
  sequence of calls, completions and cache clearings of a fresh process. And when the
  cache holds nothing for a URL, any number of calls with default options made before the
  fetch completes issue one network operation: the first call waits for it, the others
  receive its promise, and when it completes all of them settle with the same outcome,
  the parsed data or the failure.
\<close>

theorem single_flight:
  "(list_all deduplicated evs \<longrightarrow> length (outstanding k (run evs (initial s))) \<le> 1) \<and>
   (getItem s (getCacheKey url) = None
    \<longrightarrow> fst (calls (map (\<lambda>t. (t, url, default_options)) (t0 # ts)) (initial s)) =
          Awaiting 0 # replicate (length ts) (Attached 0) \<and>
        network (snd (calls (map (\<lambda>t. (t, url, default_options)) (t0 # ts)) (initial s))) =
          [(0, \<lparr>req_url = url, req_kind = Fetch (getCacheKey url)\<rparr>)] \<and>
        (\<exists>sres.
           settle q t 0 r (snd (calls (map (\<lambda>t. (t, url, default_options)) (t0 # ts)) (initial s))) =
             Some sres \<and>
           map (delivered 0 sres)
             (fst (calls (map (\<lambda>t. (t, url, default_options)) (t0 # ts)) (initial s))) =
             replicate (Suc (length ts)) (Some (fetch_outcome r))))"
proof (intro conjI impI)
  assume "list_all deduplicated evs"
  with registry_ok_initial have "registry_ok (run evs (initial s))" by (rule registry_ok_run)
  then show "length (outstanding k (run evs (initial s))) \<le> 1" by (rule registry_ok_outstanding)
next
  assume a: "getItem s (getCacheKey url) = None"
  note c = concurrent_calls [OF a, of t0 ts]
  show "fst (calls (map (\<lambda>t. (t, url, default_options)) (t0 # ts)) (initial s)) =
      Awaiting 0 # replicate (length ts) (Attached 0)"
    unfolding c by simp
  show "network (snd (calls (map (\<lambda>t. (t, url, default_options)) (t0 # ts)) (initial s))) =
      [(0, \<lparr>req_url = url, req_kind = Fetch (getCacheKey url)\<rparr>)]"
    unfolding c by simp
  show "\<exists>sres.
      settle q t 0 r (snd (calls (map (\<lambda>t. (t, url, default_options)) (t0 # ts)) (initial s))) =
        Some sres \<and>
      map (delivered 0 sres)
        (fst (calls (map (\<lambda>t. (t, url, default_options)) (t0 # ts)) (initial s))) =
        replicate (Suc (length ts)) (Some (fetch_outcome r))"
    unfolding c fst_conv snd_conv by (rule one_fetch_settles_all [OF a])
qed

theorem single_flight_witness:
  "list_all deduplicated
     [Call 1000 room_url default_options, Call 1001 room_url default_options,
      Call 1002 room_url (default_options\<lparr>skipCache := True\<rparr>),
      Settle accepting 2000 0 (Response (Json (JNum 7))),
      Call 30000000 room_url (default_options\<lparr>staleWhileRevalidate := True\<rparr>),
      Call 30000001 room_url default_options] \<and>
   length (outstanding (getCacheKey room_url)
     (run [Call 1000 room_url default_options, Call 1001 room_url default_options,
           Call 1002 room_url (default_options\<lparr>skipCache := True\<rparr>),
           Settle accepting 2000 0 (Response (Json (JNum 7))),
           Call 30000000 room_url (default_options\<lparr>staleWhileRevalidate := True\<rparr>),
           Call 30000001 room_url default_options] (initial []))) \<le> 1 \<and>
   getItem [] (getCacheKey room_url) = None \<and>
   fst (calls [(1000, room_url, default_options), (1001, room_url, default_options),
               (1002, room_url, default_options)] (initial [])) =
     [Awaiting 0, Attached 0, Attached 0] \<and>
   network (snd (calls [(1000, room_url, default_options), (1001, room_url, default_options),
               (1002, room_url, default_options)] (initial []))) =
     [(0, \<lparr>req_url = room_url, req_kind = Fetch (getCacheKey room_url)\<rparr>)] \<and>
   (\<exists>sres.
      settle accepting 2000 0 (Response (Json (JNum 7)))
        (snd (calls [(1000, room_url, default_options), (1001, room_url, default_options),
               (1002, room_url, default_options)] (initial []))) = Some sres \<and>
      map (delivered 0 sres) [Awaiting 0, Attached 0, Attached 0] =
        [Some (Inr (JNum 7)), Some (Inr (JNum 7)), Some (Inr (JNum 7))])"
proof -
  have d: "list_all deduplicated
     [Call 1000 room_url default_options, Call 1001 room_url default_options,
      Call 1002 room_url (default_options\<lparr>skipCache := True\<rparr>),
      Settle accepting 2000 0 (Response (Json (JNum 7))),
      Call 30000000 room_url (default_options\<lparr>staleWhileRevalidate := True\<rparr>),
      Call 30000001 room_url default_options]"
    by (simp add: default_options_def)
  have g: "getItem [] (getCacheKey room_url) = None" by (simp add: getItem_def)
  have m: "map (\<lambda>t. (t, room_url, default_options)) [1000, 1001, 1002] =
      [(1000, room_url, default_options), (1001, room_url, default_options),
       (1002, room_url, default_options)]" by simp
  have f: "fetch_outcome (Response (Json (JNum 7))) = Inr (JNum 7)"
    by (simp add: fetch_outcome_def)
  note sf = single_flight [of
      "[Call 1000 room_url default_options, Call 1001 room_url default_options,
        Call 1002 room_url (default_options\<lparr>skipCache := True\<rparr>),
        Settle accepting 2000 0 (Response (Json (JNum 7))),
        Call 30000000 room_url (default_options\<lparr>staleWhileRevalidate := True\<rparr>),
        Call 30000001 room_url default_options]"
      "getCacheKey room_url" "[]" room_url 1000 "[1001, 1002]" accepting 2000
      "Response (Json (JNum 7))"]
  from sf d have part1: "length (outstanding (getCacheKey room_url)
     (run [Call 1000 room_url default_options, Call 1001 room_url default_options,
           Call 1002 room_url (default_options\<lparr>skipCache := True\<rparr>),
           Settle accepting 2000 0 (Response (Json (JNum 7))),
           Call 30000000 room_url (default_options\<lparr>staleWhileRevalidate := True\<rparr>),
           Call 30000001 room_url default_options] (initial []))) \<le> 1"
    by blast
  let ?cs = "calls [(1000, room_url, default_options), (1001, room_url, default_options),
               (1002, room_url, default_options)] (initial [])"
  from sf g have "fst (calls (map (\<lambda>t. (t, room_url, default_options)) [1000, 1001, 1002]) (initial [])) =
          Awaiting 0 # replicate (length [1001, 1002 :: int]) (Attached 0) \<and>
        network (snd (calls (map (\<lambda>t. (t, room_url, default_options)) [1000, 1001, 1002]) (initial []))) =
          [(0, \<lparr>req_url = room_url, req_kind = Fetch (getCacheKey room_url)\<rparr>)] \<and>
        (\<exists>sres.
           settle accepting 2000 0 (Response (Json (JNum 7)))
             (snd (calls (map (\<lambda>t. (t, room_url, default_options)) [1000, 1001, 1002]) (initial []))) =
             Some sres \<and>
           map (delivered 0 sres)
             (fst (calls (map (\<lambda>t. (t, room_url, default_options)) [1000, 1001, 1002]) (initial []))) =
             replicate (Suc (length [1001, 1002 :: int])) (Some (fetch_outcome (Response (Json (JNum 7))))))"
    by blast
  then have part2: "fst ?cs = Awaiting 0 # replicate (length [1001, 1002 :: int]) (Attached 0) \<and>
        network (snd ?cs) =
          [(0, \<lparr>req_url = room_url, req_kind = Fetch (getCacheKey room_url)\<rparr>)] \<and>
        (\<exists>sres.
           settle accepting 2000 0 (Response (Json (JNum 7))) (snd ?cs) = Some sres \<and>
           map (delivered 0 sres) (fst ?cs) =
             replicate (Suc (length [1001, 1002 :: int])) (Some (fetch_outcome (Response (Json (JNum 7))))))"
    unfolding m .
  then have fst: "fst ?cs = [Awaiting 0, Attached 0, Attached 0]"
    and net: "network (snd ?cs) =
          [(0, \<lparr>req_url = room_url, req_kind = Fetch (getCacheKey room_url)\<rparr>)]"
    by simp_all
  from part2 obtain sres where
    "settle accepting 2000 0 (Response (Json (JNum 7))) (snd ?cs) = Some sres"
    "map (delivered 0 sres) (fst ?cs) =
       replicate (Suc (length [1001, 1002 :: int])) (Some (fetch_outcome (Response (Json (JNum 7)))))"
    by blast
  then have ex: "\<exists>sres.
      settle accepting 2000 0 (Response (Json (JNum 7))) (snd ?cs) = Some sres \<and>
      map (delivered 0 sres) [Awaiting 0, Attached 0, Attached 0] =
        [Some (Inr (JNum 7)), Some (Inr (JNum 7)), Some (Inr (JNum 7))]"
    unfolding fst f by (simp add: numeral_3_eq_3)
  from d part1 g fst net ex show ?thesis by blast
qed

text \<open>
  Claim C4 as stated fails: two calls with \<^verbatim>\<open>forceRefresh\<close> for the same URL each issue a
  network operation, and both are outstanding for the one cache key.
\<close>

theorem forced_fetches_overlap:
  "outstanding (getCacheKey room_url)
     (run [Call 1000 room_url (default_options\<lparr>forceRefresh := True\<rparr>),
           Call 1001 room_url (default_options\<lparr>forceRefresh := True\<rparr>)] (initial [])) = [0, 1]"
  by (simp add: run_def cachedFetch_forceRefresh default_options_def initial_def outstanding_def)

end
